theory Spec2Isabelle
  imports Complex_Main "HOL-Library.Sublist" "HOL-Library.AList"
begin

section \<open>Values, exceptions and the outside world\<close>

text \<open>
  The module \<^verbatim>\<open>oauth2.py\<close> holds one class, \<^verbatim>\<open>SpotifyOAuth\<close>. Its methods read the
  clock, read and write one cache file, post to the token endpoint and move JSON values
  around. The embedding makes each of these explicit.

  A Python \<^verbatim>\<open>str\<close> is modelled by its UTF-8 bytes (a HOL \<open>string\<close>). Every character
  the source inspects (\<^verbatim>\<open>?code=\<close>, \<^verbatim>\<open>&\<close>, the URL-safe set) is ASCII, so splitting and
  quoting act on the bytes as they act on the code points.

  A value produced by \<^verbatim>\<open>json.loads\<close> is a \<open>json\<close>. A dict is an association list in
  insertion order. A finite float is the rational it denotes: every finite double is one,
  and the rounding that float addition performs is written out (\<open>float_round\<close> below). The
  three other floats, which \<^verbatim>\<open>json.loads\<close> accepts as \<^verbatim>\<open>NaN\<close>, \<^verbatim>\<open>Infinity\<close> and
  \<^verbatim>\<open>-Infinity\<close> (or as a literal too large for a double), are \<open>JNonFinite\<close>.
\<close>

datatype nonfinite = NaN | PosInf | NegInf

datatype json =
    JNull
  | JBool bool
  | JInt int
  | JFloat rat
  | JNonFinite nonfinite
  | JStr string
  | JArr "json list"
  | JObj "(string \<times> json) list"

text \<open>
  The exceptions the module can meet. \<open>RequestException\<close> stands for the exceptions of the
  \<^verbatim>\<open>requests\<close> library, which derive from \<^verbatim>\<open>IOError\<close>; \<open>JSONDecodeError\<close>,
  \<open>UnicodeDecodeError\<close> and \<open>UnicodeEncodeError\<close> derive from \<^verbatim>\<open>ValueError\<close> and are
  siblings of each other; \<open>RecursionError\<close> is none of these.
\<close>

datatype error =
    IOError
  | RequestException
  | JSONDecodeError
  | UnicodeDecodeError
  | UnicodeEncodeError
  | KeyError string
  | TypeError
  | ValueError
  | IndexError
  | RecursionError
  | OverflowError

text \<open>The instance attributes set by \<^verbatim>\<open>__init__\<close>.\<close>

record SpotifyOAuth =
  client_id :: string
  client_secret :: string
  redirect :: string
  scopes :: string
  cache :: string

definition oauth_auth_url :: string where
  "oauth_auth_url = ''https://accounts.spotify.com/authorize''"

definition oauth_token_url :: string where
  "oauth_token_url = ''https://accounts.spotify.com/api/token''"

text \<open>One call of \<^verbatim>\<open>requests.post(url, data=..., headers=...)\<close>.\<close>

record request =
  url :: string
  data :: "(string \<times> json) list"
  headers :: "(string \<times> string) list"

text \<open>
  What the module does not contain is a parameter: the token endpoint and the library
  functions whose text is not part of this repository.
  \<^item> \<open>requests_post\<close>: the outcome of one POST, an exception or \<^verbatim>\<open>response.content\<close>;
  \<^item> \<open>decode_utf8\<close>: \<^verbatim>\<open>bytes.decode('utf-8')\<close>, \<open>None\<close> for \<^verbatim>\<open>UnicodeDecodeError\<close>;
  \<^item> \<open>json_loads\<close>: \<^verbatim>\<open>json.loads\<close>, the parsed value or the exception it raises:
    \<^verbatim>\<open>JSONDecodeError\<close> for a text it rejects, but also \<^verbatim>\<open>RecursionError\<close> for deep
    nesting or a plain \<^verbatim>\<open>ValueError\<close> for an integer literal beyond the digit limit;
  \<^item> \<open>json_dumps\<close>: \<^verbatim>\<open>json.dumps\<close>;
  \<^item> \<open>int_of_str\<close>: \<^verbatim>\<open>int(s)\<close> on a string, \<open>None\<close> for \<^verbatim>\<open>ValueError\<close>;
  \<^item> \<open>b64encode\<close>: \<^verbatim>\<open>base64.b64encode\<close>.
\<close>

record env =
  requests_post :: "request \<Rightarrow> error + string"
  decode_utf8 :: "string \<Rightarrow> string option"
  json_loads :: "string \<Rightarrow> error + json"
  json_dumps :: "json \<Rightarrow> string"
  int_of_str :: "string \<Rightarrow> int option"
  b64encode :: "string \<Rightarrow> string"

text \<open>
  The state the module acts on.
  \<^item> \<open>cache_file\<close>: what \<^verbatim>\<open>open(self.cache, 'r')\<close> and \<^verbatim>\<open>file.read()\<close> give, the text of the
    file or the exception raised: \<^verbatim>\<open>IOError\<close> when the file cannot be opened,
    \<^verbatim>\<open>UnicodeDecodeError\<close> when its bytes do not decode.
  \<^item> \<open>cache_writable\<close>: whether \<^verbatim>\<open>open(self.cache, 'w')\<close> succeeds. A failed \<^verbatim>\<open>open\<close> leaves the
    file as it was.
  \<^item> \<open>write_error\<close>: the exception, if any, raised inside the \<^verbatim>\<open>with\<close> block of
    \<^verbatim>\<open>save_token\<close>, after \<^verbatim>\<open>open\<close> has truncated the file (a full disk, say), with the
    number of bytes that had reached the file by then. The file is left with that much
    of the text: empty, or a proper part of it.
  \<^item> \<open>sent\<close>: the requests posted so far, oldest first.

  A text that was written is the text read back. Readings of \<^verbatim>\<open>time.time()\<close> are
  arguments of the functions that read the clock. What the module prints is not part of
  the state.
\<close>

record world =
  cache_file :: "error + string"
  cache_writable :: bool
  write_error :: "(error \<times> nat) option"
  sent :: "request list"

section \<open>Python operations used by the module\<close>

text \<open>\<^verbatim>\<open>obj[key]\<close> with a string key: only a dict accepts it.\<close>

fun getitem :: "json \<Rightarrow> string \<Rightarrow> error + json" where
  "getitem (JObj kvs) k = (case map_of kvs k of None \<Rightarrow> Inl (KeyError k) | Some v \<Rightarrow> Inr v)"
| "getitem _ k = Inl TypeError"

text \<open>
  \<^verbatim>\<open>obj[key] = v\<close>: an existing key keeps its place and takes the new value, a new key
  goes to the end.
\<close>

fun setitem :: "json \<Rightarrow> string \<Rightarrow> json \<Rightarrow> error + json" where
  "setitem (JObj kvs) k v = Inr (JObj (AList.update k v kvs))"
| "setitem _ k v = Inl TypeError"

text \<open>\<^verbatim>\<open>round(x)\<close> of a float: to the nearest integer, a tie to the even one.\<close>

definition py_round :: "rat \<Rightarrow> int" where
  "py_round x =
     (let f = \<lfloor>x\<rfloor>; d = x - of_int f
      in if d < 1 / 2 then f
         else if 1 / 2 < d then f + 1
         else if even f then f else f + 1)"

text \<open>
  Float addition. A double other than zero is \<open>m * 2 ^ (e - 52)\<close> for an integer \<open>m\<close> with
  \<open>2 ^ 52 \<le> \<bar>m\<bar> < 2 ^ 53\<close> and an exponent \<open>e \<ge> - 1022\<close>, or a multiple of
  \<open>2 ^ - 1074\<close> below \<open>2 ^ - 1022\<close>. \<open>a + b\<close> on floats is the exact sum rounded to the
  nearest double, a tie to the one with the even \<open>m\<close>: \<open>float_round\<close>. \<open>floor_log2 x\<close> is
  the exponent \<open>e\<close> with \<open>2 ^ e \<le> x < 2 ^ (e + 1)\<close> for \<open>x > 0\<close>. Overflow is left out: adding
  30 to a double never leaves the range of the doubles.
\<close>

function ilog2 :: "int \<Rightarrow> int" where
  "ilog2 n = (if n \<le> 1 then 0 else 1 + ilog2 (n div 2))"
  by auto
termination
  by (relation "measure nat") auto

definition floor_log2 :: "rat \<Rightarrow> int" where
  "floor_log2 x =
     (if 1 \<le> x then ilog2 \<lfloor>x\<rfloor> else - (ilog2 (\<lceil>1 / x\<rceil> - 1) + 1))"

definition pow2 :: "int \<Rightarrow> rat" where
  "pow2 k = (if 0 \<le> k then 2 ^ nat k else 1 / 2 ^ nat (- k))"

definition float_round :: "rat \<Rightarrow> rat" where
  "float_round x =
     (if x = 0 then 0
      else (let u = pow2 (max (floor_log2 \<bar>x\<bar>) (- 1022) - 52)
            in of_int (py_round (x / u)) * u))"

text \<open>
  \<^verbatim>\<open>int(v)\<close>: a finite float is truncated towards zero, NaN raises \<^verbatim>\<open>ValueError\<close> and an
  infinity \<^verbatim>\<open>OverflowError\<close>, a string is parsed.
\<close>

fun py_int :: "env \<Rightarrow> json \<Rightarrow> error + int" where
  "py_int E (JInt i) = Inr i"
| "py_int E (JBool b) = Inr (if b then 1 else 0)"
| "py_int E (JFloat r) = Inr (if 0 \<le> r then \<lfloor>r\<rfloor> else \<lceil>r\<rceil>)"
| "py_int E (JNonFinite NaN) = Inl ValueError"
| "py_int E (JNonFinite PosInf) = Inl OverflowError"
| "py_int E (JNonFinite NegInf) = Inl OverflowError"
| "py_int E (JStr s) = (case int_of_str E s of None \<Rightarrow> Inl ValueError | Some i \<Rightarrow> Inr i)"
| "py_int E _ = Inl TypeError"

text \<open>
  \<^verbatim>\<open>s.split(sep)\<close>: the pieces between the occurrences of \<open>sep\<close>, found from the left
  and not overlapping; an empty separator raises \<^verbatim>\<open>ValueError\<close>.
\<close>

fun split_str :: "string \<Rightarrow> string \<Rightarrow> string list" where
  "split_str sep [] = [[]]"
| "split_str sep (c # cs) =
     (if sep \<noteq> [] \<and> prefix sep (c # cs)
      then [] # split_str sep (drop (length sep - 1) cs)
      else (case split_str sep cs of [] \<Rightarrow> [[c]] | p # ps \<Rightarrow> (c # p) # ps))"

definition py_split :: "string \<Rightarrow> string \<Rightarrow> error + string list" where
  "py_split s sep = (if sep = [] then Inl ValueError else Inr (split_str sep s))"

text \<open>\<^verbatim>\<open>xs[i]\<close> for a literal index \<open>i \<ge> 0\<close>.\<close>

definition py_index :: "'a list \<Rightarrow> nat \<Rightarrow> error + 'a" where
  "py_index xs i = (if i < length xs then Inr (xs ! i) else Inl IndexError)"

text \<open>
  \<^verbatim>\<open>urllib.parse.quote_plus(s, safe='')\<close>, as \<^verbatim>\<open>urlencode\<close> calls it: letters, digits
  and \<^verbatim>\<open>_.-~\<close> stay (the tilde since Python 3.7), a space becomes \<^verbatim>\<open>+\<close>, every other byte
  becomes \<^verbatim>\<open>%XX\<close> with upper-case hexadecimal digits.
\<close>

definition always_safe :: "char \<Rightarrow> bool" where
  "always_safe c =
     (c \<in> set ''ABCDEFGHIJKLMNOPQRSTUVWXYZabcdefghijklmnopqrstuvwxyz0123456789_.-~'')"

definition hex_digit :: "nat \<Rightarrow> char" where
  "hex_digit n = ''0123456789ABCDEF'' ! (n mod 16)"

definition quote_char :: "char \<Rightarrow> string" where
  "quote_char c =
     (if always_safe c then [c]
      else if c = CHR '' '' then ''+''
      else [CHR ''%'', hex_digit (of_char c div 16), hex_digit (of_char c mod 16)])"

definition quote_plus :: "string \<Rightarrow> string" where
  "quote_plus s = concat (map quote_char s)"

text \<open>
  \<^verbatim>\<open>urllib.parse.urlencode(params)\<close> for a dict of strings: \<^verbatim>\<open>key=value\<close> pairs, both
  sides quoted, joined by \<^verbatim>\<open>&\<close>.
\<close>

fun join_amp :: "string list \<Rightarrow> string" where
  "join_amp [] = []"
| "join_amp [p] = p"
| "join_amp (p # q # ps) = p @ ''&'' @ join_amp (q # ps)"

definition urlencode :: "(string \<times> string) list \<Rightarrow> string" where
  "urlencode params = join_amp (map (\<lambda>(k, v). quote_plus k @ ''='' @ quote_plus v) params)"

section \<open>The methods of SpotifyOAuth\<close>

text \<open>
  \<^verbatim>\<open>is_token_expired\<close>: \<^verbatim>\<open>(time.time() + 30) > token_expire\<close>. The first argument is the
  reading of \<^verbatim>\<open>time.time()\<close>, a double. The sum is a float addition; the comparison of
  the resulting float with an integer or a float is exact (a bool counts as 0 or 1):
  nothing is greater than NaN or than the positive infinity. Any other value raises
  \<^verbatim>\<open>TypeError\<close>.
\<close>

fun is_token_expired :: "rat \<Rightarrow> json \<Rightarrow> error + bool" where
  "is_token_expired now (JInt x) = Inr (of_int x < float_round (now + 30))"
| "is_token_expired now (JFloat x) = Inr (x < float_round (now + 30))"
| "is_token_expired now (JBool b) = Inr ((if b then 1 else 0) < float_round (now + 30))"
| "is_token_expired now (JNonFinite NegInf) = Inr True"
| "is_token_expired now (JNonFinite PosInf) = Inr False"
| "is_token_expired now (JNonFinite NaN) = Inr False"
| "is_token_expired now _ = Inl TypeError"

text \<open>
  \<^verbatim>\<open>encode_header\<close>: \<^verbatim>\<open>.encode("ascii")\<close> raises \<^verbatim>\<open>UnicodeEncodeError\<close> on a character
  outside ASCII.
\<close>

definition encode_header :: "env \<Rightarrow> SpotifyOAuth \<Rightarrow> error + (string \<times> string) list" where
  "encode_header E self =
     (let s = client_id self @ '':'' @ client_secret self
      in if list_all (\<lambda>c. (of_char c :: nat) < 128) s
         then Inr [(''Authorization'', ''Basic '' @ b64encode E s)]
         else Inl UnicodeEncodeError)"

text \<open>
  \<^verbatim>\<open>save_token\<close>. The right-hand side of the assignment is evaluated first, so a missing
  \<^verbatim>\<open>expires_in\<close> raises before the file is opened. \<^verbatim>\<open>open(self.cache, 'w')\<close> truncates the
  file, and an exception raised after it leaves the file with what had been written.
  The source mutates \<^verbatim>\<open>token\<close> in place and its callers return that same object; the
  model returns the updated dict.
\<close>

definition save_token :: "env \<Rightarrow> rat \<Rightarrow> world \<Rightarrow> json \<Rightarrow> (error + json) \<times> world" where
  "save_token E now w token =
     (case getitem token ''expires_in'' of
        Inl e \<Rightarrow> (Inl e, w)
      | Inr v \<Rightarrow>
          (case py_int E v of
             Inl e \<Rightarrow> (Inl e, w)
           | Inr n \<Rightarrow>
               (case setitem token ''expires_at'' (JInt (py_round now + n)) of
                  Inl e \<Rightarrow> (Inl e, w)
                | Inr token' \<Rightarrow>
                    if cache_writable w
                    then (case write_error w of
                            Some (e, k) \<Rightarrow>
                              (Inl e, w\<lparr>cache_file := Inr (take k (json_dumps E token'))\<rparr>)
                          | None \<Rightarrow>
                              (Inr token', w\<lparr>cache_file := Inr (json_dumps E token')\<rparr>))
                    else (Inl IOError, w))))"

text \<open>
  \<^verbatim>\<open>refresh_token\<close> and \<^verbatim>\<open>retrieve_access_token\<close>: one POST, decode, parse, save. The
  status code of the response is not looked at. \<open>now\<close> is the clock reading taken in
  \<^verbatim>\<open>save_token\<close>.
\<close>

definition refresh_token ::
  "env \<Rightarrow> rat \<Rightarrow> world \<Rightarrow> SpotifyOAuth \<Rightarrow> json \<Rightarrow> (error + json) \<times> world" where
  "refresh_token E now w self rt =
     (let body = [(''grant_type'', JStr ''refresh_token''), (''refresh_token'', rt)]
      in case encode_header E self of
           Inl e \<Rightarrow> (Inl e, w)
         | Inr hdr \<Rightarrow>
             (let req = \<lparr>url = oauth_token_url, data = body, headers = hdr\<rparr>;
                  w1 = w\<lparr>sent := sent w @ [req]\<rparr>
              in case requests_post E req of
                   Inl e \<Rightarrow> (Inl e, w1)
                 | Inr content \<Rightarrow>
                     (case decode_utf8 E content of
                        None \<Rightarrow> (Inl UnicodeDecodeError, w1)
                      | Some raw \<Rightarrow>
                          (case json_loads E raw of
                             Inl e \<Rightarrow> (Inl e, w1)
                           | Inr token \<Rightarrow> save_token E now w1 token))))"

definition retrieve_access_token ::
  "env \<Rightarrow> rat \<Rightarrow> world \<Rightarrow> SpotifyOAuth \<Rightarrow> string \<Rightarrow> (error + json) \<times> world" where
  "retrieve_access_token E now w self code =
     (let body = [(''grant_type'', JStr ''authorization_code''), (''code'', JStr code),
                  (''redirect_uri'', JStr (redirect self))]
      in case encode_header E self of
           Inl e \<Rightarrow> (Inl e, w)
         | Inr hdr \<Rightarrow>
             (let req = \<lparr>url = oauth_token_url, data = body, headers = hdr\<rparr>;
                  w1 = w\<lparr>sent := sent w @ [req]\<rparr>
              in case requests_post E req of
                   Inl e \<Rightarrow> (Inl e, w1)
                 | Inr content \<Rightarrow>
                     (case decode_utf8 E content of
                        None \<Rightarrow> (Inl UnicodeDecodeError, w1)
                      | Some raw \<Rightarrow>
                          (case json_loads E raw of
                             Inl e \<Rightarrow> (Inl e, w1)
                           | Inr token \<Rightarrow> save_token E now w1 token))))"

text \<open>
  \<^verbatim>\<open>get_credentials\<close>. \<open>get_credentials_try\<close> is the body of the \<^verbatim>\<open>try\<close> block;
  \<open>t_check\<close> is the clock reading of the expiry check and \<open>t_save\<close> the one taken when a
  refreshed token is saved. The handler \<^verbatim>\<open>except (IOError, json.decoder.JSONDecodeError)\<close>
  turns the exceptions of these two classes into \<^verbatim>\<open>None\<close>; the exceptions of
  \<^verbatim>\<open>requests\<close> are of class \<^verbatim>\<open>IOError\<close>. Every other exception leaves the method.
\<close>

definition get_credentials_try ::
  "env \<Rightarrow> rat \<Rightarrow> rat \<Rightarrow> world \<Rightarrow> SpotifyOAuth \<Rightarrow> (error + json) \<times> world" where
  "get_credentials_try E t_check t_save w self =
     (case cache_file w of
        Inl e \<Rightarrow> (Inl e, w)
      | Inr raw \<Rightarrow>
          (case json_loads E raw of
             Inl e \<Rightarrow> (Inl e, w)
           | Inr creds \<Rightarrow>
               (case getitem creds ''expires_at'' of
                  Inl e \<Rightarrow> (Inl e, w)
                | Inr x \<Rightarrow>
                    (case is_token_expired t_check x of
                       Inl e \<Rightarrow> (Inl e, w)
                     | Inr expired \<Rightarrow>
                         if expired
                         then (case getitem creds ''refresh_token'' of
                                 Inl e \<Rightarrow> (Inl e, w)
                               | Inr rt \<Rightarrow> refresh_token E t_save w self rt)
                         else (Inr creds, w)))))"

definition caught :: "error \<Rightarrow> bool" where
  "caught e = (e = IOError \<or> e = RequestException \<or> e = JSONDecodeError)"

definition get_credentials ::
  "env \<Rightarrow> rat \<Rightarrow> rat \<Rightarrow> world \<Rightarrow> SpotifyOAuth \<Rightarrow> (error + json option) \<times> world" where
  "get_credentials E t_check t_save w self =
     (case get_credentials_try E t_check t_save w self of
        (Inl e, w') \<Rightarrow> if caught e then (Inr None, w') else (Inl e, w')
      | (Inr creds, w') \<Rightarrow> (Inr (Some creds), w'))"

text \<open>\<^verbatim>\<open>get_authorize_url\<close>: the endpoint, \<^verbatim>\<open>?\<close>, and the four parameters in dict order.\<close>

definition get_authorize_url :: "SpotifyOAuth \<Rightarrow> string" where
  "get_authorize_url self =
     oauth_auth_url @ ''?'' @
     urlencode [(''client_id'', client_id self), (''response_type'', ''code''),
                (''redirect_uri'', redirect self), (''scope'', scopes self)]"

text \<open>
  \<^verbatim>\<open>parse_response_code\<close>: \<^verbatim>\<open>url.split('?code=')[1].split('&')[0]\<close>; an \<^verbatim>\<open>IndexError\<close>
  is passed over and the method returns \<^verbatim>\<open>None\<close>.
\<close>

definition parse_response_code :: "string \<Rightarrow> error + string option" where
  "parse_response_code u =
     (case (case py_split u ''?code='' of
              Inl e \<Rightarrow> Inl e
            | Inr parts \<Rightarrow>
                (case py_index parts 1 of
                   Inl e \<Rightarrow> Inl e
                 | Inr p \<Rightarrow>
                     (case py_split p ''&'' of
                        Inl e \<Rightarrow> Inl e
                      | Inr qs \<Rightarrow> py_index qs 0))) of
        Inl e \<Rightarrow> if e = IndexError then Inr None else Inl e
      | Inr c \<Rightarrow> Inr (Some c))"

section \<open>Reading a URL back\<close>

text \<open>
  The specification speaks of the query parameters of the authorization URL and of
  decoding them. These definitions are the reader's side, used to state that property;
  the module itself never decodes a URL.

  \<open>unquote\<close> is percent-decoding (\<^verbatim>\<open>urllib.parse.unquote\<close>): \<^verbatim>\<open>%XX\<close> with two hexadecimal
  digits becomes the byte, everything else stays. \<open>unquote_plus\<close> is the decoding of a
  form-encoded query (\<^verbatim>\<open>urllib.parse.unquote_plus\<close>): a \<^verbatim>\<open>+\<close> is a space, then
  percent-decoding.
\<close>

definition hex_val :: "char \<Rightarrow> nat option" where
  "hex_val c =
     (let n = (of_char c :: nat)
      in if 48 \<le> n \<and> n \<le> 57 then Some (n - 48)
         else if 65 \<le> n \<and> n \<le> 70 then Some (n - 55)
         else if 97 \<le> n \<and> n \<le> 102 then Some (n - 87)
         else None)"

fun unquote :: "string \<Rightarrow> string" where
  "unquote [] = []"
| "unquote (c # cs) =
     (if c = CHR ''%''
      then (case cs of
              a # b # r \<Rightarrow>
                (case (hex_val a, hex_val b) of
                   (Some x, Some y) \<Rightarrow> char_of (16 * x + y) # unquote r
                 | _ \<Rightarrow> c # unquote cs)
            | _ \<Rightarrow> c # unquote cs)
      else c # unquote cs)"

definition plus_to_space :: "char \<Rightarrow> char" where
  "plus_to_space c = (if c = CHR ''+'' then CHR '' '' else c)"

definition unquote_plus :: "string \<Rightarrow> string" where
  "unquote_plus s = unquote (map plus_to_space s)"

text \<open>
  The query of a URL is what follows its first \<^verbatim>\<open>?\<close>; its parameters are the pieces
  between \<^verbatim>\<open>&\<close>, each cut at its first \<^verbatim>\<open>=\<close> into a name and a still encoded value.
\<close>

definition query_string :: "string \<Rightarrow> string" where
  "query_string u = drop 1 (dropWhile (\<lambda>c. c \<noteq> CHR ''?'') u)"

definition query_params :: "string \<Rightarrow> (string \<times> string) list" where
  "query_params u =
     map (\<lambda>p. (takeWhile (\<lambda>c. c \<noteq> CHR ''='') p, drop 1 (dropWhile (\<lambda>c. c \<noteq> CHR ''='') p)))
       (split_str ''&'' (query_string u))"

section \<open>The token shape of the specification\<close>




section \<open>A small concrete world\<close>

text \<open>
  Concrete inputs on which the theorems below are run: a configuration, a cached token
  that expires at second 1010, a refresh response without \<^verbatim>\<open>refresh_token\<close>, a response
  that holds nothing but \<^verbatim>\<open>expires_in\<close>, an error response of the endpoint, and cache
  files that hold the empty object, a stale token without \<^verbatim>\<open>refresh_token\<close>, a list, and
  a hundred thousand opening brackets, on which \<^verbatim>\<open>json.loads\<close> raises \<^verbatim>\<open>RecursionError\<close>.
  The library functions are finite tables over these values, and the stand-in for the
  base-64 encoder leaves its argument as it is.
\<close>

definition demo_self :: SpotifyOAuth where
  "demo_self =
     \<lparr>client_id = ''id'', client_secret = ''secret'', redirect = ''http://localhost:8080/cb'',
      scopes = ''user-read-email playlist-read'', cache = ''cache.json''\<rparr>"

definition cached_token :: json where
  "cached_token =
     JObj [(''access_token'', JStr ''OLD''), (''token_type'', JStr ''Bearer''),
           (''scope'', JStr ''user-read-email''), (''expires_in'', JInt 3600),
           (''refresh_token'', JStr ''R1''), (''expires_at'', JInt 1010)]"

definition fresh_token :: json where
  "fresh_token =
     JObj [(''access_token'', JStr ''NEW''), (''token_type'', JStr ''Bearer''),
           (''scope'', JStr ''user-read-email''), (''expires_in'', JInt 3600)]"

definition stamped_token :: json where
  "stamped_token =
     JObj [(''access_token'', JStr ''NEW''), (''token_type'', JStr ''Bearer''),
           (''scope'', JStr ''user-read-email''), (''expires_in'', JInt 3600),
           (''expires_at'', JInt 4600)]"

definition bare_token :: json where
  "bare_token = JObj [(''expires_in'', JInt 3600)]"

definition error_reply :: json where
  "error_reply = JObj [(''error'', JStr ''invalid_grant'')]"

definition stale_no_refresh :: json where
  "stale_no_refresh = JObj [(''access_token'', JStr ''OLD''), (''expires_at'', JInt 1010)]"

definition deep_text :: string where
  "deep_text = replicate 100000 (CHR ''['')"

definition demo_loads :: "string \<Rightarrow> error + json" where
  "demo_loads s =
     (if s = deep_text then Inl RecursionError
      else if s = ''cached'' then Inr cached_token
      else if s = ''fresh'' then Inr fresh_token
      else if s = ''stamped'' then Inr stamped_token
      else if s = ''bare'' then Inr bare_token
      else if s = ''error'' then Inr error_reply
      else if s = ''empty'' then Inr (JObj [])
      else if s = ''stale'' then Inr stale_no_refresh
      else if s = ''list'' then Inr (JArr [])
      else Inl JSONDecodeError)"

definition demo_dumps :: "json \<Rightarrow> string" where
  "demo_dumps j =
     (if j = cached_token then ''cached''
      else if j = fresh_token then ''fresh''
      else if j = stamped_token then ''stamped''
      else ''other'')"

definition demo_env :: "string \<Rightarrow> env" where
  "demo_env reply =
     \<lparr>requests_post = (\<lambda>r. Inr reply), decode_utf8 = Some, json_loads = demo_loads,
      json_dumps = demo_dumps, int_of_str = (\<lambda>s. None), b64encode = (\<lambda>s. s)\<rparr>"

definition demo_world :: "error + string \<Rightarrow> world" where
  "demo_world f = \<lparr>cache_file = f, cache_writable = True, write_error = None, sent = []\<rparr>"

section \<open>Facts about splitting\<close>

lemma split_str_ne: "split_str sep s \<noteq> []"
  by (induction sep s rule: split_str.induct) (auto split: list.splits)

lemma split_str_no_occ: "\<not> sublist sep s \<Longrightarrow> split_str sep s = [s]"
proof (induction s)
  case Nil
  then show ?case by simp
next
  case (Cons c cs)
  then have "\<not> prefix sep (c # cs)" and "\<not> sublist sep cs"
    by (auto simp: sublist_Cons_right)
  with Cons.IH show ?case by simp
qed

lemma split_str_at_sep:
  assumes "sep \<noteq> []"
  shows "split_str sep (sep @ rest) = [] # split_str sep rest"
proof -
  obtain c cs where sep: "sep = c # cs" using assms by (cases sep) auto
  then show ?thesis by simp
qed

lemma prefix_append_short:
  "prefix xs (ys @ zs) \<Longrightarrow> length xs \<le> length ys \<Longrightarrow> prefix xs ys"
  by (auto simp: prefix_append)

lemma split_str_first:
  assumes "sep \<noteq> []" and "\<not> sublist sep (pre @ butlast sep)"
  shows "split_str sep (pre @ sep @ rest) = pre # split_str sep rest"
  using assms(2)
proof (induction pre)
  case Nil
  then show ?case using split_str_at_sep[OF assms(1)] by simp
next
  case (Cons c pre)
  have np: "\<not> prefix sep (c # pre @ sep @ rest)"
  proof
    assume p: "prefix sep (c # pre @ sep @ rest)"
    have "c # pre @ sep @ rest = ((c # pre) @ butlast sep) @ (last sep # rest)"
      using assms(1) by simp
    moreover have "length sep \<le> length ((c # pre) @ butlast sep)" by simp
    ultimately have "prefix sep ((c # pre) @ butlast sep)"
      using p prefix_append_short by metis
    then show False using Cons.prems by auto
  qed
  have "\<not> sublist sep (pre @ butlast sep)"
    using Cons.prems by (auto simp: sublist_Cons_right)
  from Cons.IH[OF this] np show ?case by simp
qed

lemma hd_split_char: "hd (split_str [c] s) = takeWhile (\<lambda>x. x \<noteq> c) s"
  by (induction s) (auto split: list.splits simp: split_str_ne)

lemma takeWhile_hd_split:
  assumes "sep \<noteq> []" and "\<And>x. x \<in> set sep \<Longrightarrow> P x"
  shows "\<not> sublist sep (takeWhile P s) \<Longrightarrow>
     takeWhile P (hd (split_str sep s)) = takeWhile P s"
proof (induction s)
  case Nil
  then show ?case by simp
next
  case (Cons c cs)
  show ?case
  proof (cases "prefix sep (c # cs)")
    case True
    then obtain r where r: "c # cs = sep @ r" by (auto simp: prefix_def)
    have "takeWhile P (sep @ r) = sep @ takeWhile P r"
      using assms(2) by (simp add: takeWhile_append2)
    with r Cons.prems show ?thesis by (metis sublist_append_rightI)
  next
    case False
    show ?thesis
    proof (cases "P c")
      case True
      with Cons.prems have "\<not> sublist sep (takeWhile P cs)"
        by (auto simp: sublist_Cons_right)
      from Cons.IH[OF this] False True show ?thesis
        by (auto split: list.splits simp: split_str_ne)
    next
      case nP: False
      with False show ?thesis by (auto split: list.splits simp: split_str_ne)
    qed
  qed
qed

lemma parse_response_code_eval:
  "parse_response_code u =
     (case split_str ''?code='' u of
        p0 # p1 # ps \<Rightarrow> Inr (Some (takeWhile (\<lambda>c. c \<noteq> CHR ''&'') p1))
      | _ \<Rightarrow> Inr None)"
proof -
  have h1: "split_str ''&'' p \<noteq> []" for p by (rule split_str_ne)
  have h2: "split_str ''&'' p ! 0 = takeWhile (\<lambda>c. c \<noteq> CHR ''&'') p" for p
    using hd_split_char[of "CHR ''&''" p] h1[of p] by (simp add: hd_conv_nth)
  show ?thesis
    by (simp add: parse_response_code_def py_split_def py_index_def h1 h2
        split: list.splits del: split_str.simps)
qed

lemma split_marker_first:
  "\<not> sublist ''?code='' (pre @ ''?code'') \<Longrightarrow>
     split_str ''?code='' (pre @ ''?code='' @ rest) = pre # split_str ''?code='' rest"
  using split_str_first[of "''?code=''" pre rest] by simp

lemma parse_absent: "\<not> sublist ''?code='' u \<Longrightarrow> parse_response_code u = Inr None"
  by (simp add: parse_response_code_eval split_str_no_occ del: split_str.simps)

lemma parse_first:
  assumes "\<not> sublist ''?code='' (pre @ ''?code'')"
    and "\<not> sublist ''?code='' (takeWhile (\<lambda>c. c \<noteq> CHR ''&'') rest)"
  shows "parse_response_code (pre @ ''?code='' @ rest) = Inr (Some (takeWhile (\<lambda>c. c \<noteq> CHR ''&'') rest))"
proof -
  obtain p ps where ps: "split_str ''?code='' rest = p # ps"
    using split_str_ne[of "''?code=''" rest] by (cases "split_str ''?code='' rest") auto
  have "takeWhile (\<lambda>c. c \<noteq> CHR ''&'') (hd (split_str ''?code='' rest)) = takeWhile (\<lambda>c. c \<noteq> CHR ''&'') rest"
    by (rule takeWhile_hd_split) (use assms(2) in auto)
  with ps show ?thesis
    unfolding parse_response_code_eval split_marker_first[OF assms(1)] by simp
qed

lemma parse_second:
  assumes "\<not> sublist ''?code='' (pre @ ''?code'')"
    and "\<not> sublist ''?code='' (mid @ ''?code'')"
  shows "parse_response_code (pre @ ''?code='' @ mid @ ''?code='' @ rest) = Inr (Some (takeWhile (\<lambda>c. c \<noteq> CHR ''&'') mid))"
  unfolding parse_response_code_eval split_marker_first[OF assms(1)] split_marker_first[OF assms(2)]
  by simp

section \<open>Facts about quoting\<close>

lemma hex_digit_cases: "list_all (\<lambda>k. hex_val (hex_digit k) = Some k \<and> hex_digit k \<noteq> CHR ''+'' \<and> hex_digit k \<noteq> CHR ''&'' \<and> hex_digit k \<noteq> CHR ''='' \<and> hex_digit k \<noteq> CHR ''?'') [0..<16]"
  by code_simp

lemma hex_digit_ok:
  assumes "k < 16"
  shows "hex_val (hex_digit k) = Some k" and "hex_digit k \<noteq> CHR ''+''"
    and "hex_digit k \<noteq> CHR ''&''" and "hex_digit k \<noteq> CHR ''=''" and "hex_digit k \<noteq> CHR ''?''"
proof -
  have "k \<in> set [0..<16]" using assms by simp
  with hex_digit_cases show "hex_val (hex_digit k) = Some k" and "hex_digit k \<noteq> CHR ''+''"
    and "hex_digit k \<noteq> CHR ''&''" and "hex_digit k \<noteq> CHR ''=''" and "hex_digit k \<noteq> CHR ''?''"
    unfolding list_all_iff by blast+
qed

lemma always_safe_not_special:
  assumes "always_safe c"
  shows "c \<noteq> CHR ''%''" and "c \<noteq> CHR ''+''" and "c \<noteq> CHR ''&''" and "c \<noteq> CHR ''=''" and "c \<noteq> CHR ''?''"
  using assms by (auto simp: always_safe_def)

lemma char_of_hex_pair: "char_of (16 * ((of_char c :: nat) div 16) + of_char c mod 16) = c"
  by simp

lemma unquote_plus_quote_char:
  "unquote (map plus_to_space (quote_char c) @ t) = c # unquote t"
proof (cases "always_safe c")
  case True
  then show ?thesis
    using always_safe_not_special[OF True] by (simp add: quote_char_def plus_to_space_def)
next
  case False
  show ?thesis
  proof (cases "c = CHR '' ''")
    case True
    with False show ?thesis by (simp add: quote_char_def plus_to_space_def)
  next
    case sp: False
    let ?n = "of_char c :: nat"
    have hi: "?n div 16 < 16" using nat_of_char_less_256[of c] by arith
    have lo: "?n mod 16 < 16" by simp
    note h = hex_digit_ok[OF hi] hex_digit_ok[OF lo]
    from False sp h show ?thesis
      by (simp add: quote_char_def plus_to_space_def char_of_hex_pair del: of_char_mod_256)
  qed
qed

lemma unquote_plus_quote_plus: "unquote_plus (quote_plus s) = s"
  unfolding unquote_plus_def quote_plus_def
  by (induction s) (simp_all add: unquote_plus_quote_char del: unquote.simps(2))

lemma quote_char_no_delim:
  assumes "x \<in> set (quote_char c)"
  shows "x \<noteq> CHR ''&'' \<and> x \<noteq> CHR ''='' \<and> x \<noteq> CHR ''?''"
proof (cases "always_safe c")
  case True
  with assms always_safe_not_special[OF True] show ?thesis by (simp add: quote_char_def)
next
  case False
  let ?n = "of_char c :: nat"
  have hi: "?n div 16 < 16" using nat_of_char_less_256[of c] by arith
  have lo: "?n mod 16 < 16" by simp
  note h = hex_digit_ok[OF hi] hex_digit_ok[OF lo]
  from False assms h show ?thesis
    by (auto simp: quote_char_def split: if_splits)
qed

lemma quote_plus_no_delim:
  "CHR ''&'' \<notin> set (quote_plus s)" "CHR ''='' \<notin> set (quote_plus s)" "CHR ''?'' \<notin> set (quote_plus s)"
  using quote_char_no_delim by (auto simp: quote_plus_def)

lemma split_char_none: "c \<notin> set a \<Longrightarrow> split_str [c] a = [a]"
  by (induction a) auto

lemma split_char_append:
  "c \<notin> set a \<Longrightarrow> split_str [c] (a @ c # rest) = a # split_str [c] rest"
  by (induction a) auto

lemma quote_plus_keys:
  "quote_plus ''client_id'' = ''client_id''" "quote_plus ''response_type'' = ''response_type''"
  "quote_plus ''redirect_uri'' = ''redirect_uri''" "quote_plus ''scope'' = ''scope''"
  "quote_plus ''code'' = ''code''"
  by (simp_all add: quote_plus_def quote_char_def always_safe_def)

lemma get_authorize_url_text:
  "get_authorize_url self =
     oauth_auth_url @ ''?client_id='' @ quote_plus (client_id self) @
     ''&response_type=code&redirect_uri='' @ quote_plus (redirect self) @
     ''&scope='' @ quote_plus (scopes self)"
  by (simp add: get_authorize_url_def urlencode_def quote_plus_keys)

lemma query_string_authorize:
  "query_string (get_authorize_url self) =
     (''client_id='' @ quote_plus (client_id self)) @ CHR ''&'' #
     (''response_type=code'') @ CHR ''&'' #
     (''redirect_uri='' @ quote_plus (redirect self)) @ CHR ''&'' #
     (''scope='' @ quote_plus (scopes self))"
  by (simp add: get_authorize_url_text query_string_def oauth_auth_url_def)

lemma split_amp4:
  assumes "CHR ''&'' \<notin> set a" "CHR ''&'' \<notin> set b" "CHR ''&'' \<notin> set c" "CHR ''&'' \<notin> set d"
  shows "split_str ''&'' (a @ CHR ''&'' # b @ CHR ''&'' # c @ CHR ''&'' # d) = [a, b, c, d]"
  using assms by (simp add: split_char_append split_char_none del: split_str.simps)

lemma query_params_authorize:
  "query_params (get_authorize_url self) =
     [(''client_id'', quote_plus (client_id self)), (''response_type'', ''code''),
      (''redirect_uri'', quote_plus (redirect self)), (''scope'', quote_plus (scopes self))]"
proof -
  have s: "split_str ''&''
      ((''client_id='' @ quote_plus (client_id self)) @ CHR ''&'' #
       (''response_type=code'') @ CHR ''&'' #
       (''redirect_uri='' @ quote_plus (redirect self)) @ CHR ''&'' #
       (''scope='' @ quote_plus (scopes self))) =
     [''client_id='' @ quote_plus (client_id self), ''response_type=code'',
      ''redirect_uri='' @ quote_plus (redirect self), ''scope='' @ quote_plus (scopes self)]"
    by (rule split_amp4) (simp_all add: quote_plus_no_delim)
  show ?thesis unfolding query_params_def query_string_authorize s by simp
qed

lemma unquote_quote_char:
  "unquote (quote_char c @ t) = (if c = CHR '' '' then CHR ''+'' else c) # unquote t"
proof (cases "always_safe c")
  case True
  then show ?thesis
    using always_safe_not_special[OF True] by (auto simp add: quote_char_def always_safe_def)
next
  case False
  show ?thesis
  proof (cases "c = CHR '' ''")
    case True
    with False show ?thesis by (simp add: quote_char_def)
  next
    case sp: False
    let ?n = "of_char c :: nat"
    have hi: "?n div 16 < 16" using nat_of_char_less_256[of c] by arith
    have lo: "?n mod 16 < 16" by simp
    note h = hex_digit_ok[OF hi] hex_digit_ok[OF lo]
    from False sp h show ?thesis
      by (simp add: quote_char_def char_of_hex_pair del: of_char_mod_256)
  qed
qed

lemma unquote_quote_plus:
  "unquote (quote_plus s) = map (\<lambda>c. if c = CHR '' '' then CHR ''+'' else c) s"
  unfolding quote_plus_def
  by (induction s) (simp_all add: unquote_quote_char del: unquote.simps(2))

section \<open>Facts about float rounding\<close>

declare ilog2.simps [simp del]

lemma ilog2_bounds:
  "1 \<le> n \<Longrightarrow> 0 \<le> ilog2 n \<and> 2 ^ nat (ilog2 n) \<le> n \<and> n < 2 * 2 ^ nat (ilog2 n)"
proof (induction n rule: ilog2.induct)
  case (1 n)
  show ?case
  proof (cases "n \<le> 1")
    case True
    with "1.prems" have "n = 1" by simp
    then show ?thesis by (simp add: ilog2.simps)
  next
    case False
    then have h: "1 \<le> n div 2" by simp
    from "1.IH"[OF False h]
    have ih: "0 \<le> ilog2 (n div 2)" "2 ^ nat (ilog2 (n div 2)) \<le> n div 2"
      "n div 2 < 2 * 2 ^ nat (ilog2 (n div 2))" by simp_all
    have e: "ilog2 n = 1 + ilog2 (n div 2)" using False by (subst ilog2.simps) simp
    have p: "(2::int) ^ nat (1 + ilog2 (n div 2)) = 2 * 2 ^ nat (ilog2 (n div 2))"
      using ih(1) by (simp add: nat_add_distrib)
    from ih show ?thesis unfolding e p by auto
  qed
qed

lemma ilog2_less: "1 \<le> n \<Longrightarrow> n < 2 ^ k \<Longrightarrow> ilog2 n < int k"
proof -
  assume a: "1 \<le> n" "n < 2 ^ k"
  from ilog2_bounds[OF a(1)] a(2) have "(2::int) ^ nat (ilog2 n) < 2 ^ k" and "0 \<le> ilog2 n"
    by linarith+
  then have "nat (ilog2 n) < k"
    by (intro power_less_imp_less_exp[of "2::int"]) simp_all
  with \<open>0 \<le> ilog2 n\<close> show ?thesis by simp
qed

lemma ilog2_ge: "2 ^ k \<le> n \<Longrightarrow> int k \<le> ilog2 n"
proof -
  assume a: "2 ^ k \<le> n"
  have "(1::int) \<le> 2 ^ k" by simp
  with a have "1 \<le> n" by linarith
  from ilog2_bounds[OF this] a have "(2::int) ^ k < 2 ^ (Suc (nat (ilog2 n)))" and "0 \<le> ilog2 n"
    by simp_all
  then have "k < Suc (nat (ilog2 n))"
    by (intro power_less_imp_less_exp[of "2::int"]) simp_all
  with \<open>0 \<le> ilog2 n\<close> show ?thesis by simp
qed

lemma py_round_of_int: "py_round (of_int k) = k"
  by (simp add: py_round_def)

text \<open>
  A multiple of \<open>2 ^ (e - 52)\<close> between \<open>2 ^ e\<close> and \<open>2 ^ (e + 1)\<close> is a double: rounding
  leaves it as it is.
\<close>

lemma float_round_exact:
  assumes "0 \<le> e" and "(2::rat) ^ nat e \<le> \<bar>x\<bar>" and "\<bar>x\<bar> < 2 * 2 ^ nat e"
    and "x = of_int m * pow2 (e - 52)"
  shows "float_round x = x"
proof -
  have "(1::rat) \<le> 2 ^ nat e" by simp
  with assms(2) have x1: "1 \<le> \<bar>x\<bar>" by linarith
  let ?n = "\<lfloor>\<bar>x\<bar>\<rfloor>"
  have lo: "2 ^ nat e \<le> ?n" using assms(2) by (simp add: le_floor_iff)
  have hi: "?n < 2 ^ Suc (nat e)" using assms(3) by (simp add: floor_less_iff)
  have "1 \<le> ?n" using x1 by (simp add: le_floor_iff)
  from ilog2_less[OF this hi] ilog2_ge[OF lo] assms(1) have "ilog2 ?n = e" by simp
  with x1 have fe: "floor_log2 \<bar>x\<bar> = e" by (simp add: floor_log2_def)
  have u0: "pow2 (e - 52) \<noteq> 0" by (simp add: pow2_def)
  have "x / pow2 (e - 52) = of_int m" using assms(4) u0 by simp
  then have pr: "py_round (x / pow2 (e - 52)) = m" by (simp only: py_round_of_int)
  have mx: "max e (- 1022) = e" using assms(1) by simp
  have "x \<noteq> 0" using x1 by auto
  then have "float_round x = of_int (py_round (x / pow2 (e - 52))) * pow2 (e - 52)"
    by (simp add: float_round_def fe mx Let_def)
  also have "\<dots> = of_int m * pow2 (e - 52)" by (simp only: pr)
  also have "\<dots> = x" by (simp only: assms(4))
  finally show ?thesis .
qed

lemma float_round_int:
  assumes "\<bar>m\<bar> < 2 ^ 53"
  shows "float_round (of_int m) = of_int m"
proof (cases "m = 0")
  case True
  then show ?thesis by (simp add: float_round_def)
next
  case False
  then have m1: "1 \<le> \<bar>m\<bar>" by simp
  define e where "e = ilog2 \<bar>m\<bar>"
  from ilog2_bounds[OF m1] have e0: "0 \<le> e" and lo: "2 ^ nat e \<le> \<bar>m\<bar>"
    and hi: "\<bar>m\<bar> < 2 * 2 ^ nat e" by (simp_all add: e_def)
  from ilog2_less[OF m1 assms] have e52: "e \<le> 52" by (simp add: e_def)
  have p: "pow2 (e - 52) = 1 / 2 ^ nat (52 - e)" using e52 by (auto simp: pow2_def)
  have a: "(2::rat) ^ nat e \<le> \<bar>of_int m\<bar>"
    using lo of_int_le_iff[of "2 ^ nat e" "\<bar>m\<bar>", where 'a = rat] by simp
  have b: "\<bar>of_int m :: rat\<bar> < 2 * 2 ^ nat e"
    using hi of_int_less_iff[of "\<bar>m\<bar>" "2 * 2 ^ nat e", where 'a = rat] by simp
  have c: "(of_int m :: rat) = of_int (m * 2 ^ nat (52 - e)) * pow2 (e - 52)"
    by (simp add: p)
  from float_round_exact[OF e0 a b c] show ?thesis .
qed

lemma float_round_numeral:
  "numeral k < (2::int) ^ 53 \<Longrightarrow> float_round (numeral k) = numeral k"
  using float_round_int[of "numeral k"] by simp


lemma ilog2_nonneg: "0 \<le> ilog2 n"
proof (cases "n \<le> 1")
  case True
  then show ?thesis by (simp add: ilog2.simps)
next
  case False
  then have "1 \<le> n" by simp
  from ilog2_bounds[OF this] show ?thesis by simp
qed

lemma py_round_le: "x \<le> of_int k \<Longrightarrow> py_round x \<le> k"
proof -
  assume a: "x \<le> of_int k"
  then have f: "\<lfloor>x\<rfloor> \<le> k" by (simp add: floor_le_iff)
  show ?thesis
  proof (cases "\<lfloor>x\<rfloor> = k")
    case True
    with a have "x = of_int k" by linarith
    then show ?thesis by (simp add: py_round_def)
  next
    case False
    with f have "\<lfloor>x\<rfloor> + 1 \<le> k" by simp
    then show ?thesis by (auto simp: py_round_def Let_def)
  qed
qed

text \<open>
  Rounding a sum below \<open>2 ^ 53\<close> in magnitude never crosses an integer: the integers there
  are doubles, and rounding is monotone.
\<close>

lemma float_round_le_int:
  assumes "s \<le> of_int m" and "\<bar>s\<bar> < 2 ^ 53"
  shows "float_round s \<le> of_int m"
proof (cases "s = 0")
  case True
  with assms(1) show ?thesis by (simp add: float_round_def)
next
  case False
  define e where "e = max (floor_log2 \<bar>s\<bar>) (- 1022)"
  have "floor_log2 \<bar>s\<bar> \<le> 52"
  proof (cases "1 \<le> \<bar>s\<bar>")
    case True
    then have "1 \<le> \<lfloor>\<bar>s\<bar>\<rfloor>" by (simp add: le_floor_iff)
    moreover have "\<lfloor>\<bar>s\<bar>\<rfloor> < 2 ^ 53" using assms(2) by (simp add: floor_less_iff)
    ultimately have "ilog2 \<lfloor>\<bar>s\<bar>\<rfloor> < int 53" by (rule ilog2_less)
    with True show ?thesis by (simp add: floor_log2_def)
  next
    case False
    then show ?thesis using ilog2_nonneg[of "\<lceil>1 / \<bar>s\<bar>\<rceil> - 1"] by (simp add: floor_log2_def)
  qed
  then have e52: "e \<le> 52" by (simp add: e_def)
  define j where "j = nat (52 - e)"
  have u: "pow2 (e - 52) = 1 / 2 ^ j" using e52 by (auto simp: pow2_def j_def)
  have "s / (1 / 2 ^ j) \<le> of_int (m * 2 ^ j)" using assms(1) by (simp add: mult_right_mono)
  then have "py_round (s / (1 / 2 ^ j)) \<le> m * 2 ^ j" by (rule py_round_le)
  then have "(of_int (py_round (s / (1 / 2 ^ j))) :: rat) \<le> of_int (m * 2 ^ j)"
    by (simp only: of_int_le_iff)
  then have "of_int (py_round (s / (1 / 2 ^ j))) * (1 / 2 ^ j) \<le> (of_int (m * 2 ^ j) :: rat) * (1 / 2 ^ j)"
    by (intro mult_right_mono) simp_all
  then have "of_int (py_round (s / (1 / 2 ^ j))) * (1 / 2 ^ j) \<le> (of_int m :: rat)" by simp
  moreover have "float_round s = of_int (py_round (s / (1 / 2 ^ j))) * (1 / 2 ^ j)"
    using False by (simp add: float_round_def e_def[symmetric] u Let_def)
  ultimately show ?thesis by simp
qed

lemma py_round_ge: "of_int k \<le> x \<Longrightarrow> k \<le> py_round x"
proof -
  assume a: "of_int k \<le> x"
  then have f: "k \<le> \<lfloor>x\<rfloor>" by (simp add: le_floor_iff)
  then show ?thesis by (auto simp: py_round_def Let_def)
qed

lemma float_round_ge_int:
  assumes "of_int m \<le> s" and "\<bar>s\<bar> < 2 ^ 53"
  shows "of_int m \<le> float_round s"
proof (cases "s = 0")
  case True
  with assms(1) show ?thesis by (simp add: float_round_def)
next
  case False
  define e where "e = max (floor_log2 \<bar>s\<bar>) (- 1022)"
  have "floor_log2 \<bar>s\<bar> \<le> 52"
  proof (cases "1 \<le> \<bar>s\<bar>")
    case True
    then have "1 \<le> \<lfloor>\<bar>s\<bar>\<rfloor>" by (simp add: le_floor_iff)
    moreover have "\<lfloor>\<bar>s\<bar>\<rfloor> < 2 ^ 53" using assms(2) by (simp add: floor_less_iff)
    ultimately have "ilog2 \<lfloor>\<bar>s\<bar>\<rfloor> < int 53" by (rule ilog2_less)
    with True show ?thesis by (simp add: floor_log2_def)
  next
    case False
    then show ?thesis using ilog2_nonneg[of "\<lceil>1 / \<bar>s\<bar>\<rceil> - 1"] by (simp add: floor_log2_def)
  qed
  then have e52: "e \<le> 52" by (simp add: e_def)
  define j where "j = nat (52 - e)"
  have u: "pow2 (e - 52) = 1 / 2 ^ j" using e52 by (auto simp: pow2_def j_def)
  have "of_int (m * 2 ^ j) \<le> s / (1 / 2 ^ j)" using assms(1) by (simp add: mult_right_mono)
  then have "m * 2 ^ j \<le> py_round (s / (1 / 2 ^ j))" by (rule py_round_ge)
  then have "(of_int (m * 2 ^ j) :: rat) \<le> of_int (py_round (s / (1 / 2 ^ j)))"
    by (simp only: of_int_le_iff)
  then have "(of_int (m * 2 ^ j) :: rat) * (1 / 2 ^ j) \<le> of_int (py_round (s / (1 / 2 ^ j))) * (1 / 2 ^ j)"
    by (intro mult_right_mono) simp_all
  then have "(of_int m :: rat) \<le> of_int (py_round (s / (1 / 2 ^ j))) * (1 / 2 ^ j)" by simp
  moreover have "float_round s = of_int (py_round (s / (1 / 2 ^ j))) * (1 / 2 ^ j)"
    using False by (simp add: float_round_def e_def[symmetric] u Let_def)
  ultimately show ?thesis by simp
qed

section \<open>Facts about saving and posting\<close>

lemma deep_text_head: "deep_text = CHR ''['' # replicate 99999 (CHR ''['')"
proof -
  have "(100000::nat) = Suc 99999" by simp
  then show ?thesis by (simp only: deep_text_def replicate_Suc)
qed

lemma setitem_getitem:
  "setitem token k v = Inr tok' \<Longrightarrow> getitem tok' k' = (if k' = k then Inr v else getitem token k')"
  by (cases token) (auto simp: update_conv')

lemma save_token_success:
  "save_token E now w token = (Inr tok', w') \<longleftrightarrow>
     (\<exists>kvs v n. token = JObj kvs \<and> map_of kvs ''expires_in'' = Some v \<and> py_int E v = Inr n \<and>
        cache_writable w \<and> write_error w = None \<and>
        tok' = JObj (AList.update ''expires_at'' (JInt (py_round now + n)) kvs) \<and>
        w' = w\<lparr>cache_file := Inr (json_dumps E tok')\<rparr>)"
  by (cases token) (auto simp: save_token_def split: option.splits sum.splits)


lemma py_round_near: "\<bar>of_int (py_round x) - x\<bar> \<le> 1 / 2"
proof -
  have "of_int \<lfloor>x\<rfloor> \<le> x" and "x < of_int \<lfloor>x\<rfloor> + 1" by linarith+
  then show ?thesis by (auto simp: py_round_def Let_def)
qed

lemma refresh_token_success:
  "refresh_token E now w self rt = (Inr tok', w') \<longleftrightarrow>
     (\<exists>hdr content raw kvs v n.
        encode_header E self = Inr hdr \<and>
        requests_post E \<lparr>url = oauth_token_url,
          data = [(''grant_type'', JStr ''refresh_token''), (''refresh_token'', rt)],
          headers = hdr\<rparr> = Inr content \<and>
        decode_utf8 E content = Some raw \<and> json_loads E raw = Inr (JObj kvs) \<and>
        map_of kvs ''expires_in'' = Some v \<and> py_int E v = Inr n \<and>
        cache_writable w \<and> write_error w = None \<and>
        tok' = JObj (AList.update ''expires_at'' (JInt (py_round now + n)) kvs) \<and>
        w' = w\<lparr>cache_file := Inr (json_dumps E tok'),
               sent := sent w @ [\<lparr>url = oauth_token_url,
                 data = [(''grant_type'', JStr ''refresh_token''), (''refresh_token'', rt)],
                 headers = hdr\<rparr>]\<rparr>)"
  unfolding refresh_token_def Let_def
  by (auto simp: save_token_success split: sum.splits option.splits)

lemma retrieve_access_token_success:
  "retrieve_access_token E now w self code = (Inr tok', w') \<longleftrightarrow>
     (\<exists>hdr content raw kvs v n.
        encode_header E self = Inr hdr \<and>
        requests_post E \<lparr>url = oauth_token_url,
          data = [(''grant_type'', JStr ''authorization_code''), (''code'', JStr code),
                  (''redirect_uri'', JStr (redirect self))],
          headers = hdr\<rparr> = Inr content \<and>
        decode_utf8 E content = Some raw \<and> json_loads E raw = Inr (JObj kvs) \<and>
        map_of kvs ''expires_in'' = Some v \<and> py_int E v = Inr n \<and>
        cache_writable w \<and> write_error w = None \<and>
        tok' = JObj (AList.update ''expires_at'' (JInt (py_round now + n)) kvs) \<and>
        w' = w\<lparr>cache_file := Inr (json_dumps E tok'),
               sent := sent w @ [\<lparr>url = oauth_token_url,
                 data = [(''grant_type'', JStr ''authorization_code''), (''code'', JStr code),
                         (''redirect_uri'', JStr (redirect self))],
                 headers = hdr\<rparr>]\<rparr>)"
  unfolding retrieve_access_token_def Let_def
  by (auto simp: save_token_success split: sum.splits option.splits)



section \<open>Reading the cache: a fresh or a stale token\<close>

text \<open>
  Claim C1. Let the cache file hold a text that \<^verbatim>\<open>json.loads\<close> parses to \<open>creds\<close>, with an
  \<^verbatim>\<open>expires_at\<close> entry \<open>x\<close>. When \<^verbatim>\<open>is_token_expired\<close> answers false, \<^verbatim>\<open>get_credentials\<close>
  returns \<open>creds\<close> and leaves the state alone. When it answers true, the \<^verbatim>\<open>try\<close> block is
  the call of \<^verbatim>\<open>refresh_token\<close> on the cached \<^verbatim>\<open>refresh_token\<close> entry; when that call
  returns a token, \<^verbatim>\<open>get_credentials\<close> returns this token, and the one request posted
  carries the cached refresh token. A timestamp, integer or float, that lies ten seconds
  or less after the clock reading counts as expired, for every clock reading below
  \<open>2 ^ 53\<close> seconds in magnitude.
\<close>

theorem get_credentials_cached_or_refreshed:
  assumes "cache_file w = Inr raw" and "json_loads E raw = Inr creds"
    and "getitem creds ''expires_at'' = Inr x"
  shows
    "(is_token_expired t_check x = Inr False \<longrightarrow>
        get_credentials E t_check t_save w self = (Inr (Some creds), w)) \<and>
     (is_token_expired t_check x = Inr True \<and> getitem creds ''refresh_token'' = Inr rt \<longrightarrow>
        get_credentials_try E t_check t_save w self = refresh_token E t_save w self rt) \<and>
     (is_token_expired t_check x = Inr True \<and> getitem creds ''refresh_token'' = Inr rt \<and>
      refresh_token E t_save w self rt = (Inr tok, w') \<longrightarrow>
        get_credentials E t_check t_save w self = (Inr (Some tok), w') \<and>
        (\<exists>hdr. sent w' = sent w @
           [\<lparr>url = oauth_token_url,
             data = [(''grant_type'', JStr ''refresh_token''), (''refresh_token'', rt)],
             headers = hdr\<rparr>])) \<and>
     ((x = JInt n \<and> of_int n \<le> t_check + 10 \<or> x = JFloat y \<and> y \<le> t_check + 10) \<and>
      \<bar>t_check + 30\<bar> < 2 ^ 53 \<longrightarrow>
        is_token_expired t_check x = Inr True)"
proof -
  have a: "is_token_expired t_check x = Inr False \<longrightarrow>
        get_credentials E t_check t_save w self = (Inr (Some creds), w)"
    using assms by (simp add: get_credentials_def get_credentials_try_def)
  have b: "is_token_expired t_check x = Inr True \<and> getitem creds ''refresh_token'' = Inr rt \<longrightarrow>
        get_credentials_try E t_check t_save w self = refresh_token E t_save w self rt"
    using assms by (simp add: get_credentials_try_def)
  have c: "is_token_expired t_check x = Inr True \<and> getitem creds ''refresh_token'' = Inr rt \<and>
      refresh_token E t_save w self rt = (Inr tok, w') \<longrightarrow>
        get_credentials E t_check t_save w self = (Inr (Some tok), w') \<and>
        (\<exists>hdr. sent w' = sent w @
           [\<lparr>url = oauth_token_url,
             data = [(''grant_type'', JStr ''refresh_token''), (''refresh_token'', rt)],
             headers = hdr\<rparr>])"
  proof (intro impI, elim conjE)
    assume e: "is_token_expired t_check x = Inr True"
      and r: "getitem creds ''refresh_token'' = Inr rt"
      and s: "refresh_token E t_save w self rt = (Inr tok, w')"
    from b e r s have "get_credentials_try E t_check t_save w self = (Inr tok, w')" by simp
    then have "get_credentials E t_check t_save w self = (Inr (Some tok), w')"
      by (simp add: get_credentials_def)
    moreover from s have "\<exists>hdr. sent w' = sent w @
           [\<lparr>url = oauth_token_url,
             data = [(''grant_type'', JStr ''refresh_token''), (''refresh_token'', rt)],
             headers = hdr\<rparr>]"
      unfolding refresh_token_success by auto
    ultimately show "get_credentials E t_check t_save w self = (Inr (Some tok), w') \<and>
        (\<exists>hdr. sent w' = sent w @
           [\<lparr>url = oauth_token_url,
             data = [(''grant_type'', JStr ''refresh_token''), (''refresh_token'', rt)],
             headers = hdr\<rparr>])" by simp
  qed
  have d: "(x = JInt n \<and> of_int n \<le> t_check + 10 \<or> x = JFloat y \<and> y \<le> t_check + 10) \<and>
      \<bar>t_check + 30\<bar> < 2 ^ 53 \<longrightarrow>
        is_token_expired t_check x = Inr True"
  proof (intro impI, elim conjE)
    assume b: "\<bar>t_check + 30\<bar> < 2 ^ 53"
      and d: "x = JInt n \<and> of_int n \<le> t_check + 10 \<or> x = JFloat y \<and> y \<le> t_check + 10"
    have f: "of_int \<lfloor>t_check + 30\<rfloor> \<le> float_round (t_check + 30)"
      by (rule float_round_ge_int[OF _ b]) simp
    have g: "t_check + 29 < of_int \<lfloor>t_check + 30\<rfloor>" by linarith
    from d f g show "is_token_expired t_check x = Inr True" by auto
  qed
  from a b c d show ?thesis by blast
qed

text \<open>
  The theorem at the concrete world: at second 900 the token cached until second 1010 is
  returned as it is; at second 1000 it is refreshed, and the refreshed token saved at
  second 1000.4 carries \<^verbatim>\<open>expires_at\<close> 4600.
\<close>

theorem get_credentials_cached_or_refreshed_witness:
  "get_credentials (demo_env ''fresh'') 900 901 (demo_world (Inr ''cached'')) demo_self =
     (Inr (Some cached_token), demo_world (Inr ''cached'')) \<and>
   get_credentials (demo_env ''fresh'') 1000 (5002 / 5) (demo_world (Inr ''cached'')) demo_self =
     (Inr (Some stamped_token),
      \<lparr>cache_file = Inr ''stamped'', cache_writable = True, write_error = None,
        sent = [\<lparr>url = oauth_token_url,
                 data = [(''grant_type'', JStr ''refresh_token''), (''refresh_token'', JStr ''R1'')],
                 headers = [(''Authorization'', ''Basic id:secret'')]\<rparr>]\<rparr>) \<and>
   is_token_expired 1000 (JInt 1010) = Inr True"
proof -
  let ?E = "demo_env ''fresh''" and ?w = "demo_world (Inr ''cached'')"
  let ?tok = stamped_token
  let ?w' = "\<lparr>cache_file = Inr ''stamped'', cache_writable = True, write_error = None,
        sent = [\<lparr>url = oauth_token_url,
                 data = [(''grant_type'', JStr ''refresh_token''), (''refresh_token'', JStr ''R1'')],
                 headers = [(''Authorization'', ''Basic id:secret'')]\<rparr>]\<rparr>"
  have h1: "cache_file ?w = Inr ''cached''" by (simp add: demo_world_def)
  have h2: "json_loads ?E ''cached'' = Inr cached_token"
    by (simp add: demo_env_def demo_loads_def deep_text_head)
  have h3: "getitem cached_token ''expires_at'' = Inr (JInt 1010)"
    by (simp add: cached_token_def)
  have h4: "getitem cached_token ''refresh_token'' = Inr (JStr ''R1'')"
    by (simp add: cached_token_def)
  have r: "py_round (5002 / 5) = 1000" by code_simp
  have h5: "refresh_token ?E (5002 / 5) ?w demo_self (JStr ''R1'') = (Inr ?tok, ?w')"
    by (simp add: refresh_token_def encode_header_def demo_env_def demo_loads_def deep_text_head demo_self_def
        demo_world_def save_token_def fresh_token_def r demo_dumps_def
        cached_token_def stamped_token_def)
  have fresh: "is_token_expired 900 (JInt 1010) = Inr False"
    by (simp add: float_round_numeral)
  have stale: "is_token_expired 1000 (JInt 1010) = Inr True"
    by (simp add: float_round_numeral)
  from get_credentials_cached_or_refreshed[OF h1 h2 h3, where t_check = 900 and t_save = 901 and self = demo_self] fresh
  have a: "get_credentials ?E 900 901 ?w demo_self = (Inr (Some cached_token), ?w)" by simp
  from get_credentials_cached_or_refreshed[OF h1 h2 h3, where t_check = 1000 and t_save = "5002 / 5"
      and self = demo_self and rt = "JStr ''R1''" and tok = ?tok and w' = ?w']
    stale h4 h5
  have b: "get_credentials ?E 1000 (5002 / 5) ?w demo_self = (Inr (Some ?tok), ?w')" by simp
  from a b stale show ?thesis by simp
qed

section \<open>The expiry check\<close>




section \<open>When the token requests fail\<close>




section \<open>The code in the redirect URL\<close>

text \<open>
  Claim C4 as stated fails where the marker occurs a second time before the next \<^verbatim>\<open>&\<close>:
  the text after the first \<^verbatim>\<open>?code=\<close> up to the next \<^verbatim>\<open>&\<close> is \<^verbatim>\<open>A?code=B\<close>, and
  \<^verbatim>\<open>parse_response_code\<close> returns \<^verbatim>\<open>A\<close>.
\<close>

theorem parse_response_code_counterexample:
  "parse_response_code ''https://app/cb?code=A?code=B&state=xyz'' = Inr (Some ''A'') \<and>
   takeWhile (\<lambda>c. c \<noteq> CHR ''&'') ''A?code=B&state=xyz'' = ''A?code=B'' \<and>
   parse_response_code (''https://app/cb'' @ ''?code='' @ ''A?code=B&state=xyz'') \<noteq>
     Inr (Some (takeWhile (\<lambda>c. c \<noteq> CHR ''&'') ''A?code=B&state=xyz''))"
  by (simp add: parse_response_code_eval)

text \<open>
  Claim C4, as amended. Without the marker \<^verbatim>\<open>?code=\<close> in the URL the method returns
  \<^verbatim>\<open>None\<close> and raises nothing. Let the marker occur first after \<open>pre\<close> (it does not occur
  in \<open>pre\<close> followed by \<^verbatim>\<open>?code\<close>), with \<open>rest\<close> after it. When the text of \<open>rest\<close> up to its
  first \<^verbatim>\<open>&\<close> (or its end) does not hold the marker again, that text is the result. When
  the marker occurs a second time, after \<open>mid\<close>, the result is \<open>mid\<close> up to its first
  \<^verbatim>\<open>&\<close>: it ends at the next \<^verbatim>\<open>&\<close>, the next marker or the end of the string, whichever
  comes first.
\<close>

theorem parse_response_code_marker:
  "(\<not> sublist ''?code='' u \<longrightarrow> parse_response_code u = Inr None) \<and>
   (\<not> sublist ''?code='' (pre @ ''?code'') \<and>
    \<not> sublist ''?code='' (takeWhile (\<lambda>c. c \<noteq> CHR ''&'') rest) \<longrightarrow>
      parse_response_code (pre @ ''?code='' @ rest) =
        Inr (Some (takeWhile (\<lambda>c. c \<noteq> CHR ''&'') rest))) \<and>
   (\<not> sublist ''?code='' (pre @ ''?code'') \<and> \<not> sublist ''?code='' (mid @ ''?code'') \<longrightarrow>
      parse_response_code (pre @ ''?code='' @ mid @ ''?code='' @ rest) =
        Inr (Some (takeWhile (\<lambda>c. c \<noteq> CHR ''&'') mid)))"
  using parse_absent[of u] parse_first[of pre rest] parse_second[of pre mid rest] by blast

text \<open>
  The URLs of the specification: the code as first parameter is found, the code as second
  parameter and the URL without a code give \<^verbatim>\<open>None\<close>; and a URL with two markers.
\<close>

theorem parse_response_code_marker_witness:
  "parse_response_code ''https://app/cb?code=ABC123&state=xyz'' = Inr (Some ''ABC123'') \<and>
   parse_response_code ''https://app/cb?state=xyz&code=ABC'' = Inr None \<and>
   parse_response_code ''https://app/cb?state=xyz'' = Inr None \<and>
   parse_response_code ''https://app/cb?code=A?code=B&state=xyz'' = Inr (Some ''A'')"
proof -
  have n1: "\<not> sublist ''?code='' ''https://app/cb?state=xyz&code=ABC''" by code_simp
  have n2: "\<not> sublist ''?code='' ''https://app/cb?state=xyz''" by code_simp
  have p: "\<not> sublist ''?code='' (''https://app/cb'' @ ''?code'')" by code_simp
  have t: "takeWhile (\<lambda>c. c \<noteq> CHR ''&'') ''ABC123&state=xyz'' = ''ABC123''" by simp
  have q: "\<not> sublist ''?code='' (takeWhile (\<lambda>c. c \<noteq> CHR ''&'') ''ABC123&state=xyz'')"
    unfolding t by code_simp
  have m: "\<not> sublist ''?code='' (''A'' @ ''?code'')" by code_simp
  note T = parse_response_code_marker
  from T[where u = "''https://app/cb?state=xyz&code=ABC''", THEN conjunct1] n1
  have a: "parse_response_code ''https://app/cb?state=xyz&code=ABC'' = Inr None" by blast
  from T[where u = "''https://app/cb?state=xyz''", THEN conjunct1] n2
  have b: "parse_response_code ''https://app/cb?state=xyz'' = Inr None" by blast
  from T[where pre = "''https://app/cb''" and rest = "''ABC123&state=xyz''",
      THEN conjunct2, THEN conjunct1] p q
  have "parse_response_code (''https://app/cb'' @ ''?code='' @ ''ABC123&state=xyz'') =
      Inr (Some (takeWhile (\<lambda>c. c \<noteq> CHR ''&'') ''ABC123&state=xyz''))" by blast
  then have c: "parse_response_code ''https://app/cb?code=ABC123&state=xyz'' = Inr (Some ''ABC123'')"
    unfolding t by simp
  from T[where pre = "''https://app/cb''" and mid = "''A''" and rest = "''B&state=xyz''",
      THEN conjunct2, THEN conjunct2] p m
  have "parse_response_code (''https://app/cb'' @ ''?code='' @ ''A'' @ ''?code='' @ ''B&state=xyz'') =
      Inr (Some (takeWhile (\<lambda>c. c \<noteq> CHR ''&'') ''A''))" by blast
  then have d: "parse_response_code ''https://app/cb?code=A?code=B&state=xyz'' = Inr (Some ''A'')"
    by simp
  from a b c d show ?thesis by blast
qed

section \<open>What is written to the cache\<close>

text \<open>
  Setting \<^verbatim>\<open>expires_at\<close> on the parsed response changes that entry and no other.
\<close>

lemma stamp_facts:
  assumes "map_of kvs ''expires_in'' = Some v" and "py_int E v = Inr n"
    and "tok' = JObj (AList.update ''expires_at'' (JInt (py_round now + n)) kvs)"
  shows
    "(\<exists>v n. getitem (JObj kvs) ''expires_in'' = Inr v \<and> py_int E v = Inr n \<and>
        getitem tok' ''expires_at'' = Inr (JInt (py_round now + n))) \<and>
     (\<forall>k. k \<noteq> ''expires_at'' \<longrightarrow> getitem tok' k = getitem (JObj kvs) k)"
proof -
  have s: "setitem (JObj kvs) ''expires_at'' (JInt (py_round now + n)) = Inr tok'"
    by (simp add: assms(3))
  have a: "getitem tok' ''expires_at'' = Inr (JInt (py_round now + n))"
    using setitem_getitem[OF s, of "''expires_at''"] by simp
  have b: "\<forall>k. k \<noteq> ''expires_at'' \<longrightarrow> getitem tok' k = getitem (JObj kvs) k"
    using setitem_getitem[OF s] by simp
  have d: "getitem (JObj kvs) ''expires_in'' = Inr v" by (simp add: assms(1))
  from d assms(2) a have "\<exists>v n. getitem (JObj kvs) ''expires_in'' = Inr v \<and> py_int E v = Inr n \<and>
        getitem tok' ''expires_at'' = Inr (JInt (py_round now + n))" by blast
  from this b show ?thesis by (rule conjI)
qed

text \<open>
  Claim C5. Whenever \<^verbatim>\<open>save_token\<close> returns, the token it wrote has an \<^verbatim>\<open>expires_at\<close>
  entry equal to \<^verbatim>\<open>round(time.time()) + int(token['expires_in'])\<close>, whatever \<^verbatim>\<open>expires_at\<close>
  the response may have carried; every other key has the value the response gave it, and
  a key the response lacks is lacking in the written token; the cache file holds the dump
  of exactly this token, whatever it held before. The same holds for the token written by
  \<^verbatim>\<open>refresh_token\<close> and \<^verbatim>\<open>retrieve_access_token\<close>, where the response is the parsed body of
  the reply. The rounded clock reading is within half a second of the reading.
\<close>

theorem save_token_stamps_expires_at:
  "(save_token E now w token = (Inr tok', w') \<longrightarrow>
      ((\<exists>v n. getitem token ''expires_in'' = Inr v \<and> py_int E v = Inr n \<and>
         getitem tok' ''expires_at'' = Inr (JInt (py_round now + n))) \<and>
       (\<forall>k. k \<noteq> ''expires_at'' \<longrightarrow> getitem tok' k = getitem token k)) \<and>
      cache_file w' = Inr (json_dumps E tok')) \<and>
   (refresh_token E now w self rt = (Inr tok', w') \<longrightarrow>
      (\<exists>hdr content raw token.
         requests_post E \<lparr>url = oauth_token_url,
           data = [(''grant_type'', JStr ''refresh_token''), (''refresh_token'', rt)],
           headers = hdr\<rparr> = Inr content \<and>
         decode_utf8 E content = Some raw \<and> json_loads E raw = Inr token \<and>
         ((\<exists>v n. getitem token ''expires_in'' = Inr v \<and> py_int E v = Inr n \<and>
            getitem tok' ''expires_at'' = Inr (JInt (py_round now + n))) \<and>
          (\<forall>k. k \<noteq> ''expires_at'' \<longrightarrow> getitem tok' k = getitem token k)) \<and>
         cache_file w' = Inr (json_dumps E tok'))) \<and>
   (retrieve_access_token E now w self code = (Inr tok', w') \<longrightarrow>
      (\<exists>hdr content raw token.
         requests_post E \<lparr>url = oauth_token_url,
           data = [(''grant_type'', JStr ''authorization_code''), (''code'', JStr code),
                   (''redirect_uri'', JStr (redirect self))],
           headers = hdr\<rparr> = Inr content \<and>
         decode_utf8 E content = Some raw \<and> json_loads E raw = Inr token \<and>
         ((\<exists>v n. getitem token ''expires_in'' = Inr v \<and> py_int E v = Inr n \<and>
            getitem tok' ''expires_at'' = Inr (JInt (py_round now + n))) \<and>
          (\<forall>k. k \<noteq> ''expires_at'' \<longrightarrow> getitem tok' k = getitem token k)) \<and>
         cache_file w' = Inr (json_dumps E tok'))) \<and>
   \<bar>of_int (py_round now) - now\<bar> \<le> 1 / 2"
proof -
  have A: "save_token E now w token = (Inr tok', w') \<longrightarrow>
      ((\<exists>v n. getitem token ''expires_in'' = Inr v \<and> py_int E v = Inr n \<and>
         getitem tok' ''expires_at'' = Inr (JInt (py_round now + n))) \<and>
       (\<forall>k. k \<noteq> ''expires_at'' \<longrightarrow> getitem tok' k = getitem token k)) \<and>
      cache_file w' = Inr (json_dumps E tok')"
  proof
    assume "save_token E now w token = (Inr tok', w')"
    then obtain kvs v n where
      t: "token = JObj kvs" and v: "map_of kvs ''expires_in'' = Some v"
      and n: "py_int E v = Inr n"
      and tok': "tok' = JObj (AList.update ''expires_at'' (JInt (py_round now + n)) kvs)"
      and w': "w' = w\<lparr>cache_file := Inr (json_dumps E tok')\<rparr>"
      unfolding save_token_success by blast
    have c: "cache_file w' = Inr (json_dumps E tok')" by (simp add: w')
    from stamp_facts[OF v n tok'] c
    show "((\<exists>v n. getitem token ''expires_in'' = Inr v \<and> py_int E v = Inr n \<and>
         getitem tok' ''expires_at'' = Inr (JInt (py_round now + n))) \<and>
       (\<forall>k. k \<noteq> ''expires_at'' \<longrightarrow> getitem tok' k = getitem token k)) \<and>
      cache_file w' = Inr (json_dumps E tok')"
      unfolding t by (rule conjI)
  qed
  have B: "refresh_token E now w self rt = (Inr tok', w') \<longrightarrow>
      (\<exists>hdr content raw token.
         requests_post E \<lparr>url = oauth_token_url,
           data = [(''grant_type'', JStr ''refresh_token''), (''refresh_token'', rt)],
           headers = hdr\<rparr> = Inr content \<and>
         decode_utf8 E content = Some raw \<and> json_loads E raw = Inr token \<and>
         ((\<exists>v n. getitem token ''expires_in'' = Inr v \<and> py_int E v = Inr n \<and>
            getitem tok' ''expires_at'' = Inr (JInt (py_round now + n))) \<and>
          (\<forall>k. k \<noteq> ''expires_at'' \<longrightarrow> getitem tok' k = getitem token k)) \<and>
         cache_file w' = Inr (json_dumps E tok'))"
  proof
    assume "refresh_token E now w self rt = (Inr tok', w')"
    then obtain hdr content raw kvs v n where
      p: "requests_post E \<lparr>url = oauth_token_url,
           data = [(''grant_type'', JStr ''refresh_token''), (''refresh_token'', rt)],
           headers = hdr\<rparr> = Inr content"
      and d: "decode_utf8 E content = Some raw" and l: "json_loads E raw = Inr (JObj kvs)"
      and v: "map_of kvs ''expires_in'' = Some v" and n: "py_int E v = Inr n"
      and tok': "tok' = JObj (AList.update ''expires_at'' (JInt (py_round now + n)) kvs)"
      and w': "w' = w\<lparr>cache_file := Inr (json_dumps E tok'),
               sent := sent w @ [\<lparr>url = oauth_token_url,
                 data = [(''grant_type'', JStr ''refresh_token''), (''refresh_token'', rt)],
                 headers = hdr\<rparr>]\<rparr>"
      unfolding refresh_token_success by blast
    have c: "cache_file w' = Inr (json_dumps E tok')" by (simp add: w')
    show "\<exists>hdr content raw token.
         requests_post E \<lparr>url = oauth_token_url,
           data = [(''grant_type'', JStr ''refresh_token''), (''refresh_token'', rt)],
           headers = hdr\<rparr> = Inr content \<and>
         decode_utf8 E content = Some raw \<and> json_loads E raw = Inr token \<and>
         ((\<exists>v n. getitem token ''expires_in'' = Inr v \<and> py_int E v = Inr n \<and>
            getitem tok' ''expires_at'' = Inr (JInt (py_round now + n))) \<and>
          (\<forall>k. k \<noteq> ''expires_at'' \<longrightarrow> getitem tok' k = getitem token k)) \<and>
         cache_file w' = Inr (json_dumps E tok')"
      by (rule exI[of _ hdr], rule exI[of _ content], rule exI[of _ raw],
          rule exI[of _ "JObj kvs"]) (intro conjI p d l c stamp_facts[OF v n tok'])
  qed
  have C: "retrieve_access_token E now w self code = (Inr tok', w') \<longrightarrow>
      (\<exists>hdr content raw token.
         requests_post E \<lparr>url = oauth_token_url,
           data = [(''grant_type'', JStr ''authorization_code''), (''code'', JStr code),
                   (''redirect_uri'', JStr (redirect self))],
           headers = hdr\<rparr> = Inr content \<and>
         decode_utf8 E content = Some raw \<and> json_loads E raw = Inr token \<and>
         ((\<exists>v n. getitem token ''expires_in'' = Inr v \<and> py_int E v = Inr n \<and>
            getitem tok' ''expires_at'' = Inr (JInt (py_round now + n))) \<and>
          (\<forall>k. k \<noteq> ''expires_at'' \<longrightarrow> getitem tok' k = getitem token k)) \<and>
         cache_file w' = Inr (json_dumps E tok'))"
  proof
    assume "retrieve_access_token E now w self code = (Inr tok', w')"
    then obtain hdr content raw kvs v n where
      p: "requests_post E \<lparr>url = oauth_token_url,
           data = [(''grant_type'', JStr ''authorization_code''), (''code'', JStr code),
                   (''redirect_uri'', JStr (redirect self))],
           headers = hdr\<rparr> = Inr content"
      and d: "decode_utf8 E content = Some raw" and l: "json_loads E raw = Inr (JObj kvs)"
      and v: "map_of kvs ''expires_in'' = Some v" and n: "py_int E v = Inr n"
      and tok': "tok' = JObj (AList.update ''expires_at'' (JInt (py_round now + n)) kvs)"
      and w': "w' = w\<lparr>cache_file := Inr (json_dumps E tok'),
               sent := sent w @ [\<lparr>url = oauth_token_url,
                 data = [(''grant_type'', JStr ''authorization_code''), (''code'', JStr code),
                         (''redirect_uri'', JStr (redirect self))],
                 headers = hdr\<rparr>]\<rparr>"
      unfolding retrieve_access_token_success by blast
    have c: "cache_file w' = Inr (json_dumps E tok')" by (simp add: w')
    show "\<exists>hdr content raw token.
         requests_post E \<lparr>url = oauth_token_url,
           data = [(''grant_type'', JStr ''authorization_code''), (''code'', JStr code),
                   (''redirect_uri'', JStr (redirect self))],
           headers = hdr\<rparr> = Inr content \<and>
         decode_utf8 E content = Some raw \<and> json_loads E raw = Inr token \<and>
         ((\<exists>v n. getitem token ''expires_in'' = Inr v \<and> py_int E v = Inr n \<and>
            getitem tok' ''expires_at'' = Inr (JInt (py_round now + n))) \<and>
          (\<forall>k. k \<noteq> ''expires_at'' \<longrightarrow> getitem tok' k = getitem token k)) \<and>
         cache_file w' = Inr (json_dumps E tok')"
      by (rule exI[of _ hdr], rule exI[of _ content], rule exI[of _ raw],
          rule exI[of _ "JObj kvs"]) (intro conjI p d l c stamp_facts[OF v n tok'])
  qed
  from A B C py_round_near[of now] show ?thesis by (intro conjI)
qed

text \<open>
  The theorem at the concrete world: the cached token has the refresh token \<^verbatim>\<open>R1\<close>, the
  refresh response has none, and the token written at second 1000.4 has
  \<^verbatim>\<open>expires_at\<close> 4600 and no \<^verbatim>\<open>refresh_token\<close>.
\<close>

theorem save_token_stamps_expires_at_witness:
  "save_token (demo_env ''fresh'') (5002 / 5) (demo_world (Inr ''cached'')) fresh_token =
     (Inr stamped_token, \<lparr>cache_file = Inr ''stamped'', cache_writable = True, write_error = None, sent = []\<rparr>) \<and>
   refresh_token (demo_env ''fresh'') (5002 / 5) (demo_world (Inr ''cached'')) demo_self (JStr ''R1'')
     = (Inr stamped_token,
        \<lparr>cache_file = Inr ''stamped'', cache_writable = True, write_error = None,
          sent = [\<lparr>url = oauth_token_url,
                 data = [(''grant_type'', JStr ''refresh_token''), (''refresh_token'', JStr ''R1'')],
                 headers = [(''Authorization'', ''Basic id:secret'')]\<rparr>]\<rparr>) \<and>
   fst (retrieve_access_token (demo_env ''fresh'') (5002 / 5) (demo_world (Inr ''cached''))
     demo_self ''CODE'') = Inr stamped_token \<and>
   getitem cached_token ''refresh_token'' = Inr (JStr ''R1'') \<and>
   getitem stamped_token ''expires_at'' = Inr (JInt 4600) \<and>
   getitem stamped_token ''refresh_token'' = Inl (KeyError ''refresh_token'') \<and>
   getitem stamped_token ''access_token'' = Inr (JStr ''NEW'')"
proof -
  let ?E = "demo_env ''fresh''" and ?w = "demo_world (Inr ''cached'')"
  let ?wa = "\<lparr>cache_file = Inr ''stamped'', cache_writable = True, write_error = None, sent = []\<rparr>"
  let ?wb = "\<lparr>cache_file = Inr ''stamped'', cache_writable = True, write_error = None,
          sent = [\<lparr>url = oauth_token_url,
                 data = [(''grant_type'', JStr ''refresh_token''), (''refresh_token'', JStr ''R1'')],
                 headers = [(''Authorization'', ''Basic id:secret'')]\<rparr>]\<rparr>"
  let ?wc = "\<lparr>cache_file = Inr ''stamped'', cache_writable = True, write_error = None,
          sent = [\<lparr>url = oauth_token_url,
                 data = [(''grant_type'', JStr ''authorization_code''), (''code'', JStr ''CODE''),
                         (''redirect_uri'', JStr ''http://localhost:8080/cb'')],
                 headers = [(''Authorization'', ''Basic id:secret'')]\<rparr>]\<rparr>"
  have r: "py_round (5002 / 5) = 1000" by code_simp
  have s0: "save_token ?E (5002 / 5) ?w fresh_token = (Inr stamped_token, ?wa)"
    by (simp add: save_token_def fresh_token_def stamped_token_def demo_env_def demo_dumps_def
        demo_world_def cached_token_def r)
  have s1: "refresh_token ?E (5002 / 5) ?w demo_self (JStr ''R1'') = (Inr stamped_token, ?wb)"
    by (simp add: refresh_token_def encode_header_def demo_env_def demo_loads_def deep_text_head demo_self_def
        demo_world_def save_token_def fresh_token_def r demo_dumps_def
        cached_token_def stamped_token_def)
  have s2: "retrieve_access_token ?E (5002 / 5) ?w demo_self ''CODE'' = (Inr stamped_token, ?wc)"
    by (simp add: retrieve_access_token_def encode_header_def demo_env_def demo_loads_def deep_text_head
        demo_self_def demo_world_def save_token_def fresh_token_def r demo_dumps_def
        cached_token_def stamped_token_def)
  have i: "getitem fresh_token ''expires_in'' = Inr x \<longleftrightarrow> x = JInt 3600" for x
    by (auto simp: fresh_token_def)
  have a: "getitem stamped_token ''expires_at'' = Inr (JInt 4600) \<and>
      getitem stamped_token ''refresh_token'' = getitem fresh_token ''refresh_token'' \<and>
      getitem stamped_token ''access_token'' = getitem fresh_token ''access_token''"
    using save_token_stamps_expires_at[THEN conjunct1, rule_format, OF s0]
    by (elim exE conjE) (simp add: i r)
  have b: "cache_file ?wb = Inr (json_dumps ?E stamped_token)"
    using save_token_stamps_expires_at[THEN conjunct2, THEN conjunct1, rule_format, OF s1]
    by (elim exE conjE)
  have c: "cache_file ?wc = Inr (json_dumps ?E stamped_token)"
    using save_token_stamps_expires_at[THEN conjunct2, THEN conjunct2, THEN conjunct1,
        rule_format, OF s2]
    by (elim exE conjE)
  have f: "getitem fresh_token ''refresh_token'' = Inl (KeyError ''refresh_token'')"
    "getitem fresh_token ''access_token'' = Inr (JStr ''NEW'')"
    "getitem cached_token ''refresh_token'' = Inr (JStr ''R1'')"
    by (simp_all add: fresh_token_def cached_token_def)
  from a f have a': "getitem stamped_token ''expires_at'' = Inr (JInt 4600)"
    "getitem stamped_token ''refresh_token'' = Inl (KeyError ''refresh_token'')"
    "getitem stamped_token ''access_token'' = Inr (JStr ''NEW'')"
    by simp_all
  show ?thesis by (simp only: s0 s1 s2 a' f fst_conv simp_thms)
qed

section \<open>Saving and reading back\<close>

text \<open>
  Claim C6. Let \<^verbatim>\<open>save_token\<close> return for a token with an integer \<^verbatim>\<open>expires_in\<close>, and let
  \<^verbatim>\<open>json.loads\<close> invert \<^verbatim>\<open>json.dumps\<close> on the token written. Then the cache file holds a
  text that parses to the saved token with \<^verbatim>\<open>expires_at\<close> set and nothing else changed,
  \<^verbatim>\<open>expires_at\<close> is within one second of the clock reading at the save plus
  \<^verbatim>\<open>expires_in\<close>, and \<^verbatim>\<open>get_credentials\<close> returns that token at every time at which
  \<^verbatim>\<open>is_token_expired\<close> answers false, which it does at every clock reading \<open>t\<close> below
  \<open>2 ^ 53\<close> seconds in magnitude with \<open>t + 30 \<le> expires_at\<close>.
\<close>

theorem save_then_read_back:
  assumes "save_token E now w token = (Inr tok', w')"
    and "json_loads E (json_dumps E tok') = Inr tok'"
    and "getitem token ''expires_in'' = Inr (JInt n)"
  shows
    "\<exists>raw ea.
       cache_file w' = Inr raw \<and> json_loads E raw = Inr tok' \<and>
       setitem token ''expires_at'' (JInt ea) = Inr tok' \<and>
       \<bar>of_int ea - (now + of_int n)\<bar> \<le> 1 \<and>
       (\<forall>t_check t_save. is_token_expired t_check (JInt ea) = Inr False \<longrightarrow>
          get_credentials E t_check t_save w' self = (Inr (Some tok'), w')) \<and>
       (\<forall>t_check. \<not> of_int ea < t_check + 30 \<and> \<bar>t_check + 30\<bar> < 2 ^ 53 \<longrightarrow>
          is_token_expired t_check (JInt ea) = Inr False)"
proof -
  from assms(1) obtain kvs v m where
    t: "token = JObj kvs" and v: "map_of kvs ''expires_in'' = Some v" and m: "py_int E v = Inr m"
    and tok': "tok' = JObj (AList.update ''expires_at'' (JInt (py_round now + m)) kvs)"
    and w': "w' = w\<lparr>cache_file := Inr (json_dumps E tok')\<rparr>"
    unfolding save_token_success by blast
  from assms(3) t v m have mn: "m = n" by simp
  let ?ea = "py_round now + n"
  have f: "cache_file w' = Inr (json_dumps E tok')" by (simp add: w')
  have s: "setitem token ''expires_at'' (JInt ?ea) = Inr tok'" by (simp add: t tok' mn)
  have g: "getitem tok' ''expires_at'' = Inr (JInt ?ea)"
    using setitem_getitem[OF s, of "''expires_at''"] by simp
  have near: "\<bar>of_int ?ea - (now + of_int n)\<bar> \<le> 1"
    using py_round_near[of now] by simp
  have rd: "\<forall>t_check t_save. is_token_expired t_check (JInt ?ea) = Inr False \<longrightarrow>
          get_credentials E t_check t_save w' self = (Inr (Some tok'), w')"
    using f assms(2) g by (simp add: get_credentials_def get_credentials_try_def)
  have ne: "\<forall>t_check. \<not> of_int ?ea < t_check + 30 \<and> \<bar>t_check + 30\<bar> < 2 ^ 53 \<longrightarrow>
          is_token_expired t_check (JInt ?ea) = Inr False"
  proof (intro allI impI, elim conjE)
    fix t_check :: rat
    assume le: "\<not> of_int ?ea < t_check + 30" and b: "\<bar>t_check + 30\<bar> < 2 ^ 53"
    from le have "t_check + 30 \<le> of_int ?ea" by simp
    then have "float_round (t_check + 30) \<le> of_int ?ea"
      using b by (rule float_round_le_int)
    then show "is_token_expired t_check (JInt ?ea) = Inr False" by simp
  qed
  from f assms(2) s near rd ne show ?thesis by blast
qed

text \<open>
  The theorem at the concrete world: a token saved at second 1000.4 is read back at second
  4570 with \<^verbatim>\<open>expires_at\<close> 4600.
\<close>

theorem save_then_read_back_witness:
  "cache_file (snd (save_token (demo_env ''fresh'') (5002 / 5) (demo_world (Inl IOError)) fresh_token))
     = Inr ''stamped'' \<and>
   json_loads (demo_env ''fresh'') ''stamped'' = Inr stamped_token \<and>
   setitem fresh_token ''expires_at'' (JInt 4600) = Inr stamped_token \<and>
   get_credentials (demo_env ''fresh'') 4570 4570
     \<lparr>cache_file = Inr ''stamped'', cache_writable = True, write_error = None, sent = []\<rparr> demo_self =
     (Inr (Some stamped_token), \<lparr>cache_file = Inr ''stamped'', cache_writable = True, write_error = None, sent = []\<rparr>)"
proof -
  let ?E = "demo_env ''fresh''" and ?w = "demo_world (Inl IOError)"
  let ?w' = "\<lparr>cache_file = Inr ''stamped'', cache_writable = True, write_error = None, sent = []\<rparr>"
  have r: "py_round (5002 / 5) = 1000" by code_simp
  have s: "save_token ?E (5002 / 5) ?w fresh_token = (Inr stamped_token, ?w')"
    by (simp add: save_token_def fresh_token_def stamped_token_def demo_env_def demo_dumps_def
        demo_world_def cached_token_def r)
  have l: "json_loads ?E (json_dumps ?E stamped_token) = Inr stamped_token"
    by (simp add: demo_env_def demo_dumps_def demo_loads_def deep_text_head stamped_token_def cached_token_def
        fresh_token_def)
  have i: "getitem fresh_token ''expires_in'' = Inr (JInt 3600)" by (simp add: fresh_token_def)
  from save_then_read_back[OF s l i, where self = demo_self] obtain raw ea where
    f: "cache_file ?w' = Inr raw" and p: "json_loads ?E raw = Inr stamped_token"
    and st: "setitem fresh_token ''expires_at'' (JInt ea) = Inr stamped_token"
    and rd: "\<forall>t_check t_save. is_token_expired t_check (JInt ea) = Inr False \<longrightarrow>
          get_credentials ?E t_check t_save ?w' demo_self = (Inr (Some stamped_token), ?w')"
    by blast
  from f have raw: "raw = ''stamped''" by simp
  from st have ea: "ea = 4600" by (simp add: fresh_token_def stamped_token_def)
  have "is_token_expired 4570 (JInt 4600) = Inr False" by (simp add: float_round_numeral)
  with rd ea have "get_credentials ?E 4570 4570 ?w' demo_self = (Inr (Some stamped_token), ?w')"
    by simp
  with s p raw st ea show ?thesis by simp
qed

section \<open>Reading the cache: no token\<close>

text \<open>
  Claim C7 as stated fails on texts that are not valid JSON and on which \<^verbatim>\<open>json.loads\<close>
  raises something other than \<^verbatim>\<open>JSONDecodeError\<close>, and on files that are not text. A
  cache file of a hundred thousand opening brackets makes \<^verbatim>\<open>json.loads\<close> raise
  \<^verbatim>\<open>RecursionError\<close>; a cache file whose bytes do not decode makes \<^verbatim>\<open>file.read()\<close> raise
  \<^verbatim>\<open>UnicodeDecodeError\<close>. Neither is among the handler's classes, and both reach the
  caller.
\<close>

theorem unparsable_cache_counterexample:
  "json_loads (demo_env ''fresh'') deep_text = Inl RecursionError \<and>
   get_credentials (demo_env ''fresh'') 1000 1000 (demo_world (Inr deep_text)) demo_self =
     (Inl RecursionError, demo_world (Inr deep_text)) \<and>
   get_credentials (demo_env ''fresh'') 1000 1000 (demo_world (Inl UnicodeDecodeError)) demo_self =
     (Inl UnicodeDecodeError, demo_world (Inl UnicodeDecodeError))"
  by (simp add: get_credentials_def get_credentials_try_def demo_env_def demo_loads_def
      demo_world_def caught_def)

text \<open>
  Claim C7, as amended. When the cache file cannot be opened (\<^verbatim>\<open>IOError\<close>), or
  \<^verbatim>\<open>json.loads\<close> rejects its text with a \<^verbatim>\<open>JSONDecodeError\<close>, as it does for an empty file,
  \<^verbatim>\<open>get_credentials\<close> returns \<^verbatim>\<open>None\<close>: the result is a value (\<open>Inr None\<close>), not an
  exception, and the state is unchanged.
\<close>

theorem get_credentials_soft_fail:
  "(cache_file w = Inl IOError \<longrightarrow> get_credentials E t_check t_save w self = (Inr None, w)) \<and>
   (cache_file w = Inr raw \<and> json_loads E raw = Inl JSONDecodeError \<longrightarrow>
      get_credentials E t_check t_save w self = (Inr None, w))"
  by (simp add: get_credentials_def get_credentials_try_def caught_def)

text \<open>
  The theorem on a missing cache file and on a cache file that \<^verbatim>\<open>json.loads\<close> rejects.
\<close>

theorem get_credentials_soft_fail_witness:
  "get_credentials (demo_env ''fresh'') 1000 1000 (demo_world (Inl IOError)) demo_self =
     (Inr None, demo_world (Inl IOError)) \<and>
   get_credentials (demo_env ''fresh'') 1000 1000 (demo_world (Inr ''garbage'')) demo_self =
     (Inr None, demo_world (Inr ''garbage''))"
proof -
  let ?E = "demo_env ''fresh''"
  have h1: "cache_file (demo_world (Inl IOError)) = Inl IOError" by (simp add: demo_world_def)
  have h2: "cache_file (demo_world (Inr ''garbage'')) = Inr ''garbage'' \<and>
      json_loads ?E ''garbage'' = Inl JSONDecodeError"
    by (simp add: demo_world_def demo_env_def demo_loads_def deep_text_head)
  from get_credentials_soft_fail[where w = "demo_world (Inl IOError)" and E = ?E and t_check = 1000
      and t_save = 1000 and self = demo_self] h1
  have a: "get_credentials ?E 1000 1000 (demo_world (Inl IOError)) demo_self = (Inr None, demo_world (Inl IOError))"
    by blast
  from get_credentials_soft_fail[where w = "demo_world (Inr ''garbage'')" and E = ?E
      and raw = "''garbage''" and t_check = 1000 and t_save = 1000 and self = demo_self] h2
  have b: "get_credentials ?E 1000 1000 (demo_world (Inr ''garbage'')) demo_self =
     (Inr None, demo_world (Inr ''garbage''))"
    by blast
  from a b show ?thesis by simp
qed

section \<open>Reading the cache: a token without its keys\<close>

text \<open>
  Claim C9 as stated fails on a cache file that is valid JSON without being an object:
  a list has no \<^verbatim>\<open>expires_at\<close> key, yet the exception is a \<^verbatim>\<open>TypeError\<close>, not a
  \<^verbatim>\<open>KeyError\<close>.
\<close>

theorem not_an_object_counterexample:
  "cache_file (demo_world (Inr ''list'')) = Inr ''list'' \<and>
   json_loads (demo_env ''fresh'') ''list'' = Inr (JArr []) \<and>
   get_credentials (demo_env ''fresh'') 1000 1000 (demo_world (Inr ''list'')) demo_self =
     (Inl TypeError, demo_world (Inr ''list''))"
  by (simp add: get_credentials_def get_credentials_try_def demo_env_def demo_loads_def
      deep_text_head demo_world_def caught_def)

text \<open>
  Claim C9, as amended. Let the cache file hold valid JSON. For an object without an
  \<^verbatim>\<open>expires_at\<close> key \<^verbatim>\<open>get_credentials\<close> raises \<^verbatim>\<open>KeyError\<close>; for an object with a stale
  \<^verbatim>\<open>expires_at\<close> and without a \<^verbatim>\<open>refresh_token\<close> key it raises \<^verbatim>\<open>KeyError\<close> as well; for a
  value that is not an object it raises \<^verbatim>\<open>TypeError\<close>. In none of these cases is the
  result \<^verbatim>\<open>None\<close>.
\<close>

theorem get_credentials_missing_key:
  assumes "cache_file w = Inr raw" and "json_loads E raw = Inr creds"
  shows
    "(creds = JObj kvs \<and> map_of kvs ''expires_at'' = None \<longrightarrow>
        get_credentials E t_check t_save w self = (Inl (KeyError ''expires_at''), w)) \<and>
     (creds = JObj kvs \<and> map_of kvs ''expires_at'' = Some x \<and>
      is_token_expired t_check x = Inr True \<and> map_of kvs ''refresh_token'' = None \<longrightarrow>
        get_credentials E t_check t_save w self = (Inl (KeyError ''refresh_token''), w)) \<and>
     ((\<forall>kvs. creds \<noteq> JObj kvs) \<longrightarrow>
        get_credentials E t_check t_save w self = (Inl TypeError, w))"
proof -
  have a: "creds = JObj kvs \<and> map_of kvs ''expires_at'' = None \<longrightarrow>
        get_credentials E t_check t_save w self = (Inl (KeyError ''expires_at''), w)"
    using assms by (simp add: get_credentials_def get_credentials_try_def caught_def)
  have b: "creds = JObj kvs \<and> map_of kvs ''expires_at'' = Some x \<and>
      is_token_expired t_check x = Inr True \<and> map_of kvs ''refresh_token'' = None \<longrightarrow>
        get_credentials E t_check t_save w self = (Inl (KeyError ''refresh_token''), w)"
    using assms by (simp add: get_credentials_def get_credentials_try_def caught_def)
  have c: "(\<forall>kvs. creds \<noteq> JObj kvs) \<longrightarrow>
        get_credentials E t_check t_save w self = (Inl TypeError, w)"
    using assms
    by (cases creds) (simp_all add: get_credentials_def get_credentials_try_def caught_def)
  from a b c show ?thesis by blast
qed

text \<open>
  The theorem on cache files holding the empty object, a stale token without
  \<^verbatim>\<open>refresh_token\<close>, and a list.
\<close>

theorem get_credentials_missing_key_witness:
  "get_credentials (demo_env ''fresh'') 1000 1000 (demo_world (Inr ''empty'')) demo_self =
     (Inl (KeyError ''expires_at''), demo_world (Inr ''empty'')) \<and>
   get_credentials (demo_env ''fresh'') 1000 1000 (demo_world (Inr ''stale'')) demo_self =
     (Inl (KeyError ''refresh_token''), demo_world (Inr ''stale'')) \<and>
   get_credentials (demo_env ''fresh'') 1000 1000 (demo_world (Inr ''list'')) demo_self =
     (Inl TypeError, demo_world (Inr ''list''))"
proof -
  let ?E = "demo_env ''fresh''"
  have e1: "cache_file (demo_world (Inr ''empty'')) = Inr ''empty''"
    by (simp add: demo_world_def)
  have e2: "json_loads ?E ''empty'' = Inr (JObj [])"
    by (simp add: demo_env_def demo_loads_def deep_text_head)
  have s1: "cache_file (demo_world (Inr ''stale'')) = Inr ''stale''"
    by (simp add: demo_world_def)
  have s2: "json_loads ?E ''stale'' =
      Inr (JObj [(''access_token'', JStr ''OLD''), (''expires_at'', JInt 1010)])"
    by (simp add: demo_env_def demo_loads_def deep_text_head stale_no_refresh_def)
  have l1: "cache_file (demo_world (Inr ''list'')) = Inr ''list''"
    by (simp add: demo_world_def)
  have l2: "json_loads ?E ''list'' = Inr (JArr [])"
    by (simp add: demo_env_def demo_loads_def deep_text_head)
  from get_credentials_missing_key[OF e1 e2, where t_check = 1000 and t_save = 1000
      and self = demo_self and kvs = "[]"]
  have a: "get_credentials ?E 1000 1000 (demo_world (Inr ''empty'')) demo_self =
     (Inl (KeyError ''expires_at''), demo_world (Inr ''empty''))"
    by simp
  from get_credentials_missing_key[OF s1 s2, where t_check = 1000 and t_save = 1000
      and self = demo_self and x = "JInt 1010"
      and kvs = "[(''access_token'', JStr ''OLD''), (''expires_at'', JInt 1010)]"]
  have b: "get_credentials ?E 1000 1000 (demo_world (Inr ''stale'')) demo_self =
     (Inl (KeyError ''refresh_token''), demo_world (Inr ''stale''))"
    by (simp add: float_round_numeral)
  from get_credentials_missing_key[OF l1 l2, where t_check = 1000 and t_save = 1000
      and self = demo_self]
  have c: "get_credentials ?E 1000 1000 (demo_world (Inr ''list'')) demo_self =
     (Inl TypeError, demo_world (Inr ''list''))"
    by simp
  from a b c show ?thesis by simp
qed

section \<open>The authorization URL\<close>

text \<open>
  Claim C8 as stated fails on the scope of the specification's own example: the space of
  \<^verbatim>\<open>user-read-email playlist-read\<close> is written as \<^verbatim>\<open>+\<close>, and percent-decoding leaves a
  \<^verbatim>\<open>+\<close> as it is.
\<close>

theorem authorize_url_counterexample:
  "map_of (query_params (get_authorize_url demo_self)) ''scope'' = Some ''user-read-email+playlist-read'' \<and>
   unquote ''user-read-email+playlist-read'' = ''user-read-email+playlist-read'' \<and>
   scopes demo_self = ''user-read-email playlist-read'' \<and>
   map_option unquote (map_of (query_params (get_authorize_url demo_self)) ''scope'')
     \<noteq> Some (scopes demo_self)"
  by (simp add: query_params_authorize demo_self_def quote_plus_def quote_char_def always_safe_def)

text \<open>
  Claim C8, as amended. \<^verbatim>\<open>get_authorize_url\<close> is a function of the configuration alone.
  Its result is the authorization endpoint up to the first \<^verbatim>\<open>?\<close>, followed by exactly four
  parameters in this order: \<^verbatim>\<open>client_id\<close>, \<^verbatim>\<open>response_type=code\<close>, \<^verbatim>\<open>redirect_uri\<close> and
  \<^verbatim>\<open>scope\<close>, each configured value encoded by \<^verbatim>\<open>quote_plus\<close>. Decoding a value as a
  form-encoded query does (\<^verbatim>\<open>+\<close> to space, then percent-decoding) recovers the configured
  string exactly. Percent-decoding alone recovers the scope with every space replaced by
  \<^verbatim>\<open>+\<close>, hence exactly when the scope holds no space.
\<close>

theorem authorize_url_parameters:
  "takeWhile (\<lambda>c. c \<noteq> CHR ''?'') (get_authorize_url self) = oauth_auth_url \<and>
   query_params (get_authorize_url self) =
     [(''client_id'', quote_plus (client_id self)), (''response_type'', ''code''),
      (''redirect_uri'', quote_plus (redirect self)), (''scope'', quote_plus (scopes self))] \<and>
   unquote_plus (quote_plus (client_id self)) = client_id self \<and>
   unquote_plus (quote_plus (redirect self)) = redirect self \<and>
   unquote_plus (quote_plus (scopes self)) = scopes self \<and>
   unquote (quote_plus (scopes self)) =
     map (\<lambda>c. if c = CHR '' '' then CHR ''+'' else c) (scopes self) \<and>
   (CHR '' '' \<notin> set (scopes self) \<longrightarrow> unquote (quote_plus (scopes self)) = scopes self)"
proof -
  have a: "takeWhile (\<lambda>c. c \<noteq> CHR ''?'') (get_authorize_url self) = oauth_auth_url"
    by (simp add: get_authorize_url_text oauth_auth_url_def)
  have b: "CHR '' '' \<notin> set s \<longrightarrow> map (\<lambda>c. if c = CHR '' '' then CHR ''+'' else c) s = s" for s
    by (induction s) auto
  from a b[of "scopes self"] show ?thesis
    by (simp add: query_params_authorize unquote_plus_quote_plus unquote_quote_plus)
qed

text \<open>
  The URL of the concrete configuration, its parameters, and the two decodings.
\<close>

theorem authorize_url_parameters_witness:
  "get_authorize_url demo_self =
     ''https://accounts.spotify.com/authorize?client_id=id&response_type=code&redirect_uri=http%3A%2F%2Flocalhost%3A8080%2Fcb&scope=user-read-email+playlist-read'' \<and>
   query_params (get_authorize_url demo_self) =
     [(''client_id'', ''id''), (''response_type'', ''code''),
      (''redirect_uri'', ''http%3A%2F%2Flocalhost%3A8080%2Fcb''),
      (''scope'', ''user-read-email+playlist-read'')] \<and>
   unquote_plus ''user-read-email+playlist-read'' = ''user-read-email playlist-read'' \<and>
   unquote (quote_plus (scopes (demo_self\<lparr>scopes := ''user-read-email''\<rparr>))) = ''user-read-email''"
proof -
  have q1: "quote_plus ''user-read-email playlist-read'' = ''user-read-email+playlist-read''"
    by (simp add: quote_plus_def quote_char_def always_safe_def)
  have q2: "quote_plus ''http://localhost:8080/cb'' = ''http%3A%2F%2Flocalhost%3A8080%2Fcb''"
    by (simp add: quote_plus_def quote_char_def always_safe_def hex_digit_def)
  have q3: "quote_plus ''id'' = ''id''"
    by (simp add: quote_plus_def quote_char_def always_safe_def)
  have u: "get_authorize_url demo_self =
     ''https://accounts.spotify.com/authorize?client_id=id&response_type=code&redirect_uri=http%3A%2F%2Flocalhost%3A8080%2Fcb&scope=user-read-email+playlist-read''"
    by (simp add: get_authorize_url_text demo_self_def q1 q2 q3 oauth_auth_url_def)
  have ns: "CHR '' '' \<notin> set (scopes (demo_self\<lparr>scopes := ''user-read-email''\<rparr>))" by simp
  note T = authorize_url_parameters
  from T[where self = demo_self, THEN conjunct2, THEN conjunct1]
  have a: "query_params (get_authorize_url demo_self) =
     [(''client_id'', ''id''), (''response_type'', ''code''),
      (''redirect_uri'', ''http%3A%2F%2Flocalhost%3A8080%2Fcb''),
      (''scope'', ''user-read-email+playlist-read'')]"
    by (simp add: demo_self_def q1 q2 q3)
  from T[where self = demo_self] 
  have b: "unquote_plus ''user-read-email+playlist-read'' = ''user-read-email playlist-read''"
    by (simp add: demo_self_def q1)
  from T[where self = "demo_self\<lparr>scopes := ''user-read-email''\<rparr>"] ns
  have c: "unquote (quote_plus (scopes (demo_self\<lparr>scopes := ''user-read-email''\<rparr>))) = ''user-read-email''"
    by simp
  from u a b c show ?thesis by blast
qed

section \<open>A response without expires_in\<close>

text \<open>
  Claim C10. Let the response of the token endpoint parse as JSON to a value for which
  \<^verbatim>\<open>token['expires_in']\<close> raises: an object without that key (the exception is then a
  \<^verbatim>\<open>KeyError\<close>) or a value that is not an object. Then \<^verbatim>\<open>save_token\<close> raises this
  exception and returns the state it was given, whether or not the cache file could have
  been opened for writing: the file is never opened. \<^verbatim>\<open>retrieve_access_token\<close> and
  \<^verbatim>\<open>refresh_token\<close> raise the same exception, and the cache file holds afterwards what it
  held before.
\<close>

theorem missing_expires_in_keeps_cache:
  assumes "encode_header E self = Inr hdr" and "decode_utf8 E content = Some raw"
    and "json_loads E raw = Inr token" and "getitem token ''expires_in'' = Inl e"
  shows
    "save_token E now w token = (Inl e, w) \<and>
     (requests_post E \<lparr>url = oauth_token_url,
          data = [(''grant_type'', JStr ''authorization_code''), (''code'', JStr code),
                  (''redirect_uri'', JStr (redirect self))],
          headers = hdr\<rparr> = Inr content \<longrightarrow>
        fst (retrieve_access_token E now w self code) = Inl e \<and>
        cache_file (snd (retrieve_access_token E now w self code)) = cache_file w) \<and>
     (requests_post E \<lparr>url = oauth_token_url,
          data = [(''grant_type'', JStr ''refresh_token''), (''refresh_token'', rt)],
          headers = hdr\<rparr> = Inr content \<longrightarrow>
        fst (refresh_token E now w self rt) = Inl e \<and>
        cache_file (snd (refresh_token E now w self rt)) = cache_file w) \<and>
     (token = JObj kvs \<longrightarrow> e = KeyError ''expires_in'')"
proof -
  have s: "save_token E now v token = (Inl e, v)" for v
    using assms(4) by (simp add: save_token_def)
  have k: "token = JObj kvs \<longrightarrow> e = KeyError ''expires_in''"
    using assms(4) by (auto split: option.splits)
  show ?thesis
    using assms(1-3) k by (simp add: s retrieve_access_token_def refresh_token_def Let_def)
qed

text \<open>
  The theorem on an error reply of the endpoint, with a token in the cache.
\<close>

theorem missing_expires_in_keeps_cache_witness:
  "fst (retrieve_access_token (demo_env ''error'') 1000 (demo_world (Inr ''cached'')) demo_self ''CODE'')
     = Inl (KeyError ''expires_in'') \<and>
   cache_file (snd (retrieve_access_token (demo_env ''error'') 1000 (demo_world (Inr ''cached''))
     demo_self ''CODE'')) = Inr ''cached'' \<and>
   fst (refresh_token (demo_env ''error'') 1000 (demo_world (Inr ''cached'')) demo_self (JStr ''R1''))
     = Inl (KeyError ''expires_in'') \<and>
   cache_file (snd (refresh_token (demo_env ''error'') 1000 (demo_world (Inr ''cached''))
     demo_self (JStr ''R1''))) = Inr ''cached''"
proof -
  let ?E = "demo_env ''error''"
  have h1: "encode_header ?E demo_self = Inr [(''Authorization'', ''Basic id:secret'')]"
    by (simp add: encode_header_def demo_env_def demo_self_def)
  have h2: "decode_utf8 ?E ''error'' = Some ''error''" by (simp add: demo_env_def)
  have h3: "json_loads ?E ''error'' = Inr error_reply"
    by (simp add: demo_env_def demo_loads_def deep_text_head)
  have h4: "getitem error_reply ''expires_in'' = Inl (KeyError ''expires_in'')"
    by (simp add: error_reply_def)
  have p: "requests_post ?E r = Inr ''error''" for r by (simp add: demo_env_def)
  have c: "cache_file (demo_world (Inr ''cached'')) = Inr ''cached''"
    by (simp add: demo_world_def)
  from missing_expires_in_keeps_cache[OF h1 h2 h3 h4, where now = 1000
      and w = "demo_world (Inr ''cached'')" and code = "''CODE''" and rt = "JStr ''R1''"] p c
  show ?thesis by simp
qed

end
